theory Spec2Isabelle
  imports Complex_Main
begin

section \<open>Data model\<close>

text \<open>
  The storefront backend keeps its state in relational tables reached through
  SQLAlchemy sessions. Each table is a list of rows in the order a query without
  \<open>order_by\<close> yields them; the inventory table, whose \<open>product_id\<close> column is
  declared \<open>unique=True, nullable=False\<close>, is a map from product id to its row.
  Python integers are \<open>int\<close>; \<open>Decimal\<close> amounts are exact rationals.
  Columns that no modelled operation reads (timestamps, descriptions, the payment
  method of a payment) are left out. Money columns are never stored as
  \<open>NULL\<close> by the code (their defaults are \<open>Decimal("0.00")\<close>), so they are plain
  rationals. The two gateway columns of a payment are optional values, because the code
  builds payment objects that lack them.
\<close>

datatype error =
    HTTPException nat string
  | IntegrityError
  | AttributeError

record inventory_row =
  total_stock :: int
  available_stock :: int
  reserved_stock :: int

record product =
  prod_id :: int
  prod_name :: string
  price :: rat
  prod_status :: string

text \<open>
  Modelled from the spec: models/cart_model.py is not among the sources. Following
  section 3 (a cart is keyed by its user; a cart item has a product and a quantity) and
  the columns that repositories/cart_repository.py and the checkout use, with the
  integer quantity of schemas/cart_schema.py.
\<close>

record cart =
  cart_id :: int
  cart_user_id :: int

record cart_item =
  ci_id :: int
  ci_cart_id :: int
  ci_product_id :: int
  ci_quantity :: int

record order =
  o_id :: int
  o_user_id :: int
  total_items :: int
  subtotal :: rat
  tax :: rat
  discount :: rat
  grand_total :: rat
  o_status :: string
  shipping_address :: "string option"
  payment_method :: "string option"

record order_item =
  oi_order_id :: int
  oi_product_id :: int
  product_name :: string
  unit_price :: rat
  quantity :: int
  total_price :: rat

record payment =
  p_id :: int
  p_order_id :: int
  p_user_id :: int
  razorpay_order_id :: string
  razorpay_payment_id :: "string option"
  razorpay_signature :: "string option"
  amount :: rat
  currency :: string
  p_status :: string

record db =
  products :: "product list"
  inventory :: "int \<Rightarrow> inventory_row option"
  carts :: "cart list"
  cart_items :: "cart_item list"
  orders :: "order list"
  order_items :: "order_item list"
  payments :: "payment list"

text \<open>
  A SQLAlchemy session: \<open>pending\<close> is the unit of work the code reads and mutates,
  \<open>committed\<close> is what the store holds, \<open>lock_trace\<close> records the inventory rows
  that were read with \<open>with_for_update()\<close> through this session, in acquisition order.
\<close>

record session =
  committed :: db
  pending :: db
  lock_trace :: "int list"

definition commit :: "session \<Rightarrow> session" where
  "commit s = s\<lparr>committed := pending s\<rparr>"

definition rollback :: "session \<Rightarrow> session" where
  "rollback s = s\<lparr>pending := committed s\<rparr>"

definition open_session :: "db \<Rightarrow> session" where
  "open_session d = \<lparr>committed = d, pending = d, lock_trace = []\<rparr>"

text \<open>
  Modelled from the spec: \<open>database.get_db\<close> and \<open>SessionLocal\<close> are not part of the
  sources at hand. Following section 5 (each call runs as an independent unit of work
  against the shared store), a request opens a session on the store, runs the
  operation, and closes the session; what was not committed is gone.
\<close>

definition in_request :: "(session \<Rightarrow> session \<times> 'r) \<Rightarrow> db \<Rightarrow> db \<times> 'r" where
  "in_request f d = (case f (open_session d) of (s, r) \<Rightarrow> (committed s, r))"

section \<open>Inventory ledger (services/inventory_services.py)\<close>

definition get_by_product_id :: "session \<Rightarrow> int \<Rightarrow> inventory_row option" where
  "get_by_product_id s product_id = inventory (pending s) product_id"

definition set_inventory :: "int \<Rightarrow> inventory_row \<Rightarrow> session \<Rightarrow> session" where
  "set_inventory product_id r s =
     s\<lparr>pending := (pending s)\<lparr>inventory := (inventory (pending s))(product_id \<mapsto> r)\<rparr>\<rparr>"

definition create_inventory_for_product ::
  "session \<Rightarrow> int \<Rightarrow> int \<Rightarrow> session \<times> (error + inventory_row)" where
  "create_inventory_for_product s product_id stock =
     (let row = \<lparr>total_stock = stock, available_stock = stock, reserved_stock = 0\<rparr>
      in case get_by_product_id s product_id of
           Some _ \<Rightarrow> (s, Inl IntegrityError)
         | None \<Rightarrow> (commit (set_inventory product_id row s), Inr row))"

definition reserve_stock :: "session \<Rightarrow> int \<Rightarrow> int \<Rightarrow> session \<times> (error + inventory_row)" where
  "reserve_stock s product_id qty =
     (case get_by_product_id s product_id of
        None \<Rightarrow> (s, Inl (HTTPException 400 ''Insufficient stock''))
      | Some row \<Rightarrow>
          if available_stock row < qty
          then (s, Inl (HTTPException 400 ''Insufficient stock''))
          else (let row' = row\<lparr>available_stock := available_stock row - qty,
                                reserved_stock := reserved_stock row + qty\<rparr>
                in (commit (set_inventory product_id row' s), Inr row')))"

text \<open>A run of reservation requests on one product, with the total quantity granted.\<close>

fun reserve_attempts :: "db \<Rightarrow> int \<Rightarrow> int list \<Rightarrow> db \<times> int" where
  "reserve_attempts d product_id [] = (d, 0)"
| "reserve_attempts d product_id (q # qs) =
     (case in_request (\<lambda>s. reserve_stock s product_id q) d of
        (d', Inl _) \<Rightarrow> reserve_attempts d' product_id qs
      | (d', Inr _) \<Rightarrow> (case reserve_attempts d' product_id qs of (d'', g) \<Rightarrow> (d'', q + g)))"

text \<open>
  \<open>finalize_stock\<close> and \<open>rollback_stock\<close> walk the items of an order. A product
  without an inventory row makes \<open>inventory.reserved_stock\<close> an attribute access on
  \<open>None\<close>: the loop raises before the commit.
\<close>

fun finalize_items :: "order_item list \<Rightarrow> session \<Rightarrow> session \<times> (error + unit)" where
  "finalize_items [] s = (s, Inr ())"
| "finalize_items (item # items) s =
     (case get_by_product_id s (oi_product_id item) of
        None \<Rightarrow> (s, Inl AttributeError)
      | Some row \<Rightarrow>
          finalize_items items
            (set_inventory (oi_product_id item)
               (row\<lparr>reserved_stock := reserved_stock row - quantity item,
                    total_stock := total_stock row - quantity item\<rparr>) s))"

definition finalize_stock :: "session \<Rightarrow> int \<Rightarrow> session \<times> (error + unit)" where
  "finalize_stock s order_id =
     (let items = filter (\<lambda>i. oi_order_id i = order_id) (order_items (pending s))
      in case finalize_items items s of
           (s', Inl e) \<Rightarrow> (s', Inl e)
         | (s', Inr _) \<Rightarrow> (commit s', Inr ()))"

fun rollback_items :: "order_item list \<Rightarrow> session \<Rightarrow> session \<times> (error + unit)" where
  "rollback_items [] s = (s, Inr ())"
| "rollback_items (item # items) s =
     (case get_by_product_id s (oi_product_id item) of
        None \<Rightarrow> (s, Inl AttributeError)
      | Some row \<Rightarrow>
          rollback_items items
            (set_inventory (oi_product_id item)
               (row\<lparr>reserved_stock := reserved_stock row - quantity item,
                    available_stock := available_stock row + quantity item\<rparr>) s))"

definition rollback_stock :: "session \<Rightarrow> int \<Rightarrow> session \<times> (error + unit)" where
  "rollback_stock s order_id =
     (let items = filter (\<lambda>i. oi_order_id i = order_id) (order_items (pending s))
      in if items = [] then (s, Inr ())
         else case rollback_items items s of
                (s', Inl e) \<Rightarrow> (s', Inl e)
              | (s', Inr _) \<Rightarrow> (commit s', Inr ()))"

text \<open>The administrative stock update of controllers/inventory_controller.py.\<close>

definition update_inventory :: "session \<Rightarrow> int \<Rightarrow> int \<Rightarrow> session \<times> (error + inventory_row)" where
  "update_inventory s product_id new_total =
     (case get_by_product_id s product_id of
        None \<Rightarrow> (s, Inl (HTTPException 404 ''Inventory not found''))
      | Some row \<Rightarrow>
          (let diff = new_total - total_stock row;
               row' = row\<lparr>total_stock := new_total,
                          available_stock := available_stock row + diff\<rparr>
           in (commit (set_inventory product_id row' s), Inr row')))"

section \<open>Order materializer (services/order_services.py)\<close>

text \<open>
  \<open>_quantize_money\<close> is \<open>Decimal.quantize(Decimal("0.01"), rounding=ROUND_HALF_UP)\<close>:
  the nearest multiple of one cent, a tie going away from zero. Amounts are exact
  rationals here; the 28-digit precision of Python's decimal context is not reached by
  prices and quantities that fit their \<open>Numeric(10, 2)\<close> and \<open>Integer\<close> columns.
\<close>

definition quantize_money :: "rat \<Rightarrow> rat" where
  "quantize_money v =
     (if 0 \<le> v then of_int \<lfloor>v * 100 + 1 / 2\<rfloor> / 100
      else - (of_int \<lfloor>- v * 100 + 1 / 2\<rfloor> / 100))"

definition ALLOWED_STATUSES :: "string list" where
  "ALLOWED_STATUSES =
     [''PENDING'', ''CONFIRMED'', ''PAID'', ''SHIPPED'', ''DELIVERED'', ''CANCELLED'']"

text \<open>The key a flushed row receives: one more than the largest key in the table.\<close>

definition next_id :: "int list \<Rightarrow> int" where
  "next_id ids = fold max ids 0 + 1"

definition valid_items :: "cart_item list \<Rightarrow> cart_item list" where
  "valid_items items = filter (\<lambda>item. ci_quantity item \<noteq> 0 \<and> ci_quantity item > 0) items"

definition add_order :: "order \<Rightarrow> session \<Rightarrow> session" where
  "add_order ord s = s\<lparr>pending := (pending s)\<lparr>orders := orders (pending s) @ [ord]\<rparr>\<rparr>"

definition add_order_item :: "order_item \<Rightarrow> session \<Rightarrow> session" where
  "add_order_item item s =
     s\<lparr>pending := (pending s)\<lparr>order_items := order_items (pending s) @ [item]\<rparr>\<rparr>"

definition lock_inventory :: "int \<Rightarrow> session \<Rightarrow> session" where
  "lock_inventory product_id s = s\<lparr>lock_trace := lock_trace s @ [product_id]\<rparr>"

text \<open>
  The loop over the valid cart items: product lookup, locked inventory read, stock
  check, reservation, price snapshot, accumulation of subtotal and item count.
\<close>

fun order_lines ::
  "int \<Rightarrow> cart_item list \<Rightarrow> session \<Rightarrow> rat \<Rightarrow> int \<Rightarrow> session \<times> (error + rat \<times> int)" where
  "order_lines oid [] s sub n = (s, Inr (sub, n))"
| "order_lines oid (cart_item # rest) s sub n =
     (case find (\<lambda>p. prod_id p = ci_product_id cart_item \<and> prod_status p = ''active'')
             (products (pending s)) of
        None \<Rightarrow> (s, Inl (HTTPException 400 ''Product not available''))
      | Some prd \<Rightarrow>
          (case get_by_product_id s (prod_id prd) of
             None \<Rightarrow> (s, Inl (HTTPException 400 ''Inventory not found''))
           | Some row \<Rightarrow>
               (let s1 = lock_inventory (prod_id prd) s
                in if available_stock row < ci_quantity cart_item
                   then (s1, Inl (HTTPException 400 ''Insufficient stock''))
                   else
                     (let s2 = set_inventory (prod_id prd)
                                 (row\<lparr>available_stock := available_stock row - ci_quantity cart_item,
                                      reserved_stock := reserved_stock row + ci_quantity cart_item\<rparr>) s1;
                          u_price = quantize_money (price prd);
                          line_total = quantize_money (u_price * of_int (ci_quantity cart_item));
                          s3 = add_order_item
                                 \<lparr>oi_order_id = oid, oi_product_id = prod_id prd,
                                  product_name = prod_name prd, unit_price = u_price,
                                  quantity = ci_quantity cart_item, total_price = line_total\<rparr> s2
                      in order_lines oid rest s3 (sub + line_total) (n + ci_quantity cart_item)))))"

definition set_order_totals :: "int \<Rightarrow> int \<Rightarrow> rat \<Rightarrow> rat \<Rightarrow> rat \<Rightarrow> rat \<Rightarrow> session \<Rightarrow> session" where
  "set_order_totals oid n sub tx disc grand s =
     s\<lparr>pending := (pending s)\<lparr>orders :=
         map (\<lambda>ord. if o_id ord = oid
                    then ord\<lparr>total_items := n, subtotal := sub, tax := tx,
                             discount := disc, grand_total := grand\<rparr>
                    else ord) (orders (pending s))\<rparr>\<rparr>"

definition delete_cart_items :: "cart_item list \<Rightarrow> session \<Rightarrow> session" where
  "delete_cart_items items s =
     s\<lparr>pending := (pending s)\<lparr>cart_items :=
         filter (\<lambda>i. ci_id i \<notin> set (map ci_id items)) (cart_items (pending s))\<rparr>\<rparr>"

definition load_order :: "session \<Rightarrow> int \<Rightarrow> (order \<times> order_item list) option" where
  "load_order s oid =
     (case find (\<lambda>ord. o_id ord = oid) (orders (pending s)) of
        None \<Rightarrow> None
      | Some ord \<Rightarrow> Some (ord, filter (\<lambda>i. oi_order_id i = o_id ord) (order_items (pending s))))"

definition create_order_from_cart ::
  "session \<Rightarrow> int \<Rightarrow> string option \<Rightarrow> string option
     \<Rightarrow> session \<times> (error + (order \<times> order_item list) option)" where
  "create_order_from_cart s user_id shipping pay_method =
     (case find (\<lambda>c. cart_user_id c = user_id) (carts (pending s)) of
        None \<Rightarrow> (s, Inl (HTTPException 400 ''Cart not found or empty''))
      | Some c \<Rightarrow>
          (let items = valid_items (filter (\<lambda>i. ci_cart_id i = cart_id c) (cart_items (pending s)))
           in if items = []
              then (s, Inl (HTTPException 400 ''Cart is empty or has no valid items''))
              else
                (let oid = next_id (map o_id (orders (pending s)));
                     s1 = add_order
                            \<lparr>o_id = oid, o_user_id = user_id, total_items = 0, subtotal = 0,
                             tax = 0, discount = 0, grand_total = 0, o_status = ''PENDING'',
                             shipping_address = shipping, payment_method = pay_method\<rparr> s
                 in case order_lines oid items s1 0 0 of
                      (s2, Inl e) \<Rightarrow> (s2, Inl e)
                    | (s2, Inr (sub, n)) \<Rightarrow>
                        (let disc = 0;
                             tx = quantize_money (sub * (18 / 100));
                             grand = quantize_money (sub + tx - disc);
                             s3 = set_order_totals oid n (quantize_money sub) tx
                                    (quantize_money disc) grand s2;
                             s4 = commit (delete_cart_items items s3)
                         in (s4, Inr (load_order s4 oid))))))"

definition update_status :: "session \<Rightarrow> int \<Rightarrow> string \<Rightarrow> session \<times> (error + order)" where
  "update_status s order_id new_status =
     (if new_status \<notin> set ALLOWED_STATUSES
      then (s, Inl (HTTPException 400 (''Invalid order status '' @ [CHR 0x27] @ new_status @ [CHR 0x27])))
      else case find (\<lambda>ord. o_id ord = order_id) (orders (pending s)) of
             None \<Rightarrow> (s, Inl (HTTPException 404 ''Order not found''))
           | Some ord \<Rightarrow>
               (commit (s\<lparr>pending := (pending s)\<lparr>orders :=
                          map (\<lambda>x. if o_id x = o_id ord then x\<lparr>o_status := new_status\<rparr> else x)
                              (orders (pending s))\<rparr>\<rparr>),
                Inr (ord\<lparr>o_status := new_status\<rparr>)))"

section \<open>Payment session manager (services/payment_services.py)\<close>

text \<open>
  The Razorpay client is an opaque collaborator: \<open>issue n\<close> is the identifier it hands
  out for the \<open>n\<close>-th order created through it, \<open>accepts\<close> is the outcome of
  \<open>utility.verify_payment_signature\<close> (which raises when it returns \<open>False\<close> here),
  \<open>created\<close> logs the orders created so far as (amount in paise, local order id of
  the receipt), and \<open>key_id\<close> is \<open>RAZORPAY_KEY_ID\<close>.
\<close>

record gateway =
  issue :: "nat \<Rightarrow> string"
  accepts :: "string \<Rightarrow> string \<Rightarrow> string \<Rightarrow> bool"
  created :: "(int \<times> int) list"
  key_id :: string

record payment_session_response =
  r_razorpay_order_id :: string
  r_amount :: int
  r_currency :: string
  r_key_id :: string
  r_order_id :: int

record payment_verify_request =
  v_order_id :: int
  v_razorpay_order_id :: string
  v_razorpay_payment_id :: string
  v_razorpay_signature :: string

record payment_read =
  pr_id :: int
  pr_order_id :: int
  pr_user_id :: int
  pr_status :: string
  pr_amount :: rat
  pr_currency :: string

text \<open>
  Python's \<open>int(Decimal)\<close> truncates towards zero. The record a verification returns
  carries \<open>float(payment.amount)\<close>; it is kept as the exact amount here.
\<close>

definition int_of_decimal :: "rat \<Rightarrow> int" where
  "int_of_decimal v = (if 0 \<le> v then \<lfloor>v\<rfloor> else \<lceil>v\<rceil>)"

definition read_payment :: "payment \<Rightarrow> payment_read" where
  "read_payment p =
     \<lparr>pr_id = p_id p, pr_order_id = p_order_id p, pr_user_id = p_user_id p,
      pr_status = p_status p, pr_amount = amount p, pr_currency = currency p\<rparr>"

text \<open>
  The constraints models/payment_model.py declares on the payments table, checked when
  a written row is flushed: \<open>razorpay_payment_id\<close> and \<open>razorpay_signature\<close> are
  \<open>nullable=False\<close>, and \<open>uq_order_payment_idempotent\<close> makes
  (\<open>order_id\<close>, \<open>razorpay_payment_id\<close>) unique. \<open>others\<close> are the rows already stored,
  the written row excluded.
\<close>

definition violates_constraints :: "payment \<Rightarrow> payment list \<Rightarrow> bool" where
  "violates_constraints p others =
     (razorpay_payment_id p = None \<or> razorpay_signature p = None \<or>
      list_ex (\<lambda>q. p_order_id q = p_order_id p \<and> razorpay_payment_id q = razorpay_payment_id p)
        others)"

definition other_payments :: "payment \<Rightarrow> session \<Rightarrow> payment list" where
  "other_payments p s = filter (\<lambda>q. p_id q \<noteq> p_id p) (payments (pending s))"

definition add_payment :: "payment \<Rightarrow> session \<Rightarrow> session" where
  "add_payment p s = s\<lparr>pending := (pending s)\<lparr>payments := payments (pending s) @ [p]\<rparr>\<rparr>"

definition store_payment :: "payment \<Rightarrow> session \<Rightarrow> session" where
  "store_payment p s =
     s\<lparr>pending := (pending s)\<lparr>payments :=
         map (\<lambda>q. if p_id q = p_id p then p else q) (payments (pending s))\<rparr>\<rparr>"

definition mark_order_paid :: "int \<Rightarrow> session \<Rightarrow> session" where
  "mark_order_paid order_id s =
     (case find (\<lambda>ord. o_id ord = order_id) (orders (pending s)) of
        None \<Rightarrow> s
      | Some ord \<Rightarrow>
          if o_status ord \<noteq> ''PAID''
          then s\<lparr>pending := (pending s)\<lparr>orders :=
                 map (\<lambda>x. if o_id x = o_id ord then x\<lparr>o_status := ''PAID''\<rparr> else x)
                     (orders (pending s))\<rparr>\<rparr>
          else s)"

definition create_payment_session_in ::
  "gateway \<Rightarrow> session \<Rightarrow> int \<Rightarrow> int
     \<Rightarrow> session \<times> gateway \<times> (error + payment_session_response)" where
  "create_payment_session_in gw s user_id order_id =
     (case find (\<lambda>ord. o_id ord = order_id \<and> o_user_id ord = user_id) (orders (pending s)) of
        None \<Rightarrow> (s, gw, Inl (HTTPException 404 ''Order not found for this user''))
      | Some ord \<Rightarrow>
          if o_status ord = ''PAID''
          then (s, gw, Inl (HTTPException 400 ''Order already paid''))
          else
            (case find (\<lambda>p. p_order_id p = o_id ord \<and> p_user_id p = user_id \<and>
                               p_status p = ''PENDING'') (payments (pending s)) of
               Some existing_payment \<Rightarrow>
                 (s, gw,
                  Inr \<lparr>r_razorpay_order_id = razorpay_order_id existing_payment,
                       r_amount = int_of_decimal (grand_total ord * 100),
                       r_currency = ''INR'', r_key_id = key_id gw, r_order_id = o_id ord\<rparr>)
             | None \<Rightarrow>
                 if grand_total ord = 0
                 then (s, gw, Inl (HTTPException 400 ''Order has no payable amount''))
                 else
                   (let amount_paise = int_of_decimal (grand_total ord * 100);
                        rp_order_id = issue gw (length (created gw));
                        gw' = gw\<lparr>created := created gw @ [(amount_paise, o_id ord)]\<rparr>;
                        pay = \<lparr>p_id = next_id (map p_id (payments (pending s))),
                               p_order_id = o_id ord, p_user_id = user_id,
                               razorpay_order_id = rp_order_id,
                               razorpay_payment_id = None, razorpay_signature = None,
                               amount = grand_total ord, currency = ''INR'',
                               p_status = ''PENDING''\<rparr>;
                        s1 = add_payment pay s
                    in if violates_constraints pay (other_payments pay s)
                       then (s1, gw', Inl IntegrityError)
                       else (commit s1, gw',
                             Inr \<lparr>r_razorpay_order_id = rp_order_id, r_amount = amount_paise,
                                  r_currency = ''INR'', r_key_id = key_id gw,
                                  r_order_id = o_id ord\<rparr>))))"

definition create_payment_session ::
  "gateway \<Rightarrow> db \<Rightarrow> int \<Rightarrow> int \<Rightarrow> db \<times> gateway \<times> (error + payment_session_response)" where
  "create_payment_session gw d user_id order_id =
     in_request (\<lambda>s. create_payment_session_in gw s user_id order_id) d"

definition verify_and_capture_payment_in ::
  "gateway \<Rightarrow> session \<Rightarrow> int \<Rightarrow> payment_verify_request
     \<Rightarrow> session \<times> (error + payment_read)" where
  "verify_and_capture_payment_in gw s user_id data =
     (case find (\<lambda>p. p_order_id p = v_order_id data \<and> p_user_id p = user_id \<and>
                        razorpay_order_id p = v_razorpay_order_id data) (payments (pending s)) of
        None \<Rightarrow> (s, Inl (HTTPException 404 ''Payment session not found''))
      | Some pay \<Rightarrow>
          if p_status pay = ''SUCCESS'' then (s, Inr (read_payment pay))
          else if \<not> accepts gw (v_razorpay_order_id data) (v_razorpay_payment_id data)
                       (v_razorpay_signature data)
          then (commit (store_payment (pay\<lparr>p_status := ''FAILED''\<rparr>) s),
                Inl (HTTPException 400 ''Signature verification failed''))
          else
            (let pay' = pay\<lparr>razorpay_payment_id := Some (v_razorpay_payment_id data),
                            razorpay_signature := Some (v_razorpay_signature data),
                            p_status := ''SUCCESS''\<rparr>;
                 s1 = mark_order_paid (p_order_id pay') (store_payment pay' s)
             in if violates_constraints pay' (other_payments pay' s)
                then
                  (let s2 = rollback s1
                   in case find (\<lambda>q. p_order_id q = v_order_id data \<and>
                                       razorpay_payment_id q = Some (v_razorpay_payment_id data))
                             (payments (pending s2)) of
                        None \<Rightarrow> (s2, Inl AttributeError)
                      | Some existing \<Rightarrow> (s2, Inr (read_payment existing)))
                else (commit s1, Inr (read_payment pay'))))"

definition verify_and_capture_payment ::
  "gateway \<Rightarrow> db \<Rightarrow> int \<Rightarrow> payment_verify_request \<Rightarrow> db \<times> (error + payment_read)" where
  "verify_and_capture_payment gw d user_id data =
     in_request (\<lambda>s. verify_and_capture_payment_in gw s user_id data) d"

section \<open>Auxiliary notions\<close>

text \<open>
  Rounding half-up to two decimals, in the words of the specification and without
  reference to the code: \<open>q\<close> is a whole number of cents, it lies within half a cent
  of \<open>v\<close>, and when \<open>v\<close> is exactly halfway between two cents, \<open>q\<close> is the one
  farther from zero.
\<close>

definition rounded_half_up :: "rat \<Rightarrow> rat \<Rightarrow> bool" where
  "rounded_half_up v q =
     ((\<exists>k. q = of_int k / 100) \<and>
      (\<bar>q - v\<bar> < 1 / 200 \<or> (\<bar>q - v\<bar> = 1 / 200 \<and> \<bar>v\<bar> < \<bar>q\<bar>)))"

text \<open>An amount is in whole cents when rounding to two decimals does not change it.\<close>

definition cents :: "rat \<Rightarrow> bool" where
  "cents v = (quantize_money v = v)"

abbreviation line_item :: "int \<Rightarrow> cart_item \<Rightarrow> product \<Rightarrow> order_item" where
  "line_item oid ci prd \<equiv>
     \<lparr>oi_order_id = oid, oi_product_id = prod_id prd,
      product_name = prod_name prd, unit_price = quantize_money (price prd),
      quantity = ci_quantity ci,
      total_price = quantize_money (quantize_money (price prd) * of_int (ci_quantity ci))\<rparr>"

abbreviation line_state :: "int \<Rightarrow> cart_item \<Rightarrow> product \<Rightarrow> inventory_row \<Rightarrow> session \<Rightarrow> session" where
  "line_state oid ci prd row s \<equiv>
     add_order_item (line_item oid ci prd)
       (set_inventory (prod_id prd)
          (row\<lparr>available_stock := available_stock row - ci_quantity ci,
               reserved_stock := reserved_stock row + ci_quantity ci\<rparr>)
          (lock_inventory (prod_id prd) s))"

abbreviation cart_lines :: "session \<Rightarrow> cart \<Rightarrow> cart_item list" where
  "cart_lines s c \<equiv>
     valid_items (filter (\<lambda>i. ci_cart_id i = cart_id c) (cart_items (pending s)))"

abbreviation new_order :: "session \<Rightarrow> int \<Rightarrow> string option \<Rightarrow> string option \<Rightarrow> order" where
  "new_order s user_id shipping pay_method \<equiv>
     \<lparr>o_id = next_id (map o_id (orders (pending s))), o_user_id = user_id, total_items = 0,
      subtotal = 0, tax = 0, discount = 0, grand_total = 0, o_status = ''PENDING'',
      shipping_address = shipping, payment_method = pay_method\<rparr>"

text \<open>
  Shorthands for the payment service: the filter that selects the payment session of a
  payload, the row as a successful verification writes it, the write of a row by primary
  key, the order table after "mark PAID unless already PAID", and the filter of the
  race handler. \<open>payment_constraints\<close> states the primary key and the
  \<open>uq_order_payment_idempotent\<close> constraint of models/payment_model.py for a whole table.
\<close>

abbreviation session_of :: "payment_verify_request \<Rightarrow> int \<Rightarrow> payment \<Rightarrow> bool" where
  "session_of data user_id \<equiv> \<lambda>p. p_order_id p = v_order_id data \<and> p_user_id p = user_id \<and>
      razorpay_order_id p = v_razorpay_order_id data"

abbreviation captured :: "payment_verify_request \<Rightarrow> payment \<Rightarrow> payment" where
  "captured data pay \<equiv>
     pay\<lparr>razorpay_payment_id := Some (v_razorpay_payment_id data),
         razorpay_signature := Some (v_razorpay_signature data),
         p_status := ''SUCCESS''\<rparr>"

abbreviation replace_payment :: "payment \<Rightarrow> payment list \<Rightarrow> payment list" where
  "replace_payment p ps \<equiv> map (\<lambda>q. if p_id q = p_id p then p else q) ps"

abbreviation paid_orders :: "int \<Rightarrow> order list \<Rightarrow> order list" where
  "paid_orders order_id os \<equiv>
     (case find (\<lambda>ord. o_id ord = order_id) os of
        None \<Rightarrow> os
      | Some ord \<Rightarrow>
          if o_status ord \<noteq> ''PAID''
          then map (\<lambda>x. if o_id x = o_id ord then x\<lparr>o_status := ''PAID''\<rparr> else x) os
          else os)"

abbreviation same_capture :: "payment_verify_request \<Rightarrow> payment \<Rightarrow> bool" where
  "same_capture data \<equiv> \<lambda>q. p_order_id q = v_order_id data \<and>
      razorpay_payment_id q = Some (v_razorpay_payment_id data)"

definition payment_constraints :: "payment list \<Rightarrow> bool" where
  "payment_constraints ps =
     (distinct (map p_id ps) \<and>
      (\<forall>p\<in>set ps. \<forall>q\<in>set ps.
         p_id p \<noteq> p_id q \<longrightarrow> razorpay_payment_id p \<noteq> None \<longrightarrow>
         p_order_id p = p_order_id q \<longrightarrow> razorpay_payment_id p \<noteq> razorpay_payment_id q))"

text \<open>
  The inventory operations as requests against the store, and the two parts of the
  inventory invariant of the data model.
\<close>

datatype inventory_op =
    Create int int
  | Reserve int int
  | Finalize int
  | Release int
  | AdminUpdate int int
  | Checkout int "string option" "string option"

fun apply_op :: "db \<Rightarrow> inventory_op \<Rightarrow> db" where
  "apply_op d (Create product_id stock) =
     fst (in_request (\<lambda>s. create_inventory_for_product s product_id stock) d)"
| "apply_op d (Reserve product_id qty) =
     fst (in_request (\<lambda>s. reserve_stock s product_id qty) d)"
| "apply_op d (Finalize order_id) = fst (in_request (\<lambda>s. finalize_stock s order_id) d)"
| "apply_op d (Release order_id) = fst (in_request (\<lambda>s. rollback_stock s order_id) d)"
| "apply_op d (AdminUpdate product_id new_total) =
     fst (in_request (\<lambda>s. update_inventory s product_id new_total) d)"
| "apply_op d (Checkout user_id shipping pay_method) =
     fst (in_request (\<lambda>s. create_order_from_cart s user_id shipping pay_method) d)"

definition run_ops :: "db \<Rightarrow> inventory_op list \<Rightarrow> db" where
  "run_ops d ops = foldl apply_op d ops"

definition stock_balanced :: "db \<Rightarrow> bool" where
  "stock_balanced d =
     (\<forall>product_id row. inventory d product_id = Some row \<longrightarrow>
        total_stock row = available_stock row + reserved_stock row)"

definition stock_nonneg :: "db \<Rightarrow> bool" where
  "stock_nonneg d =
     (\<forall>product_id row. inventory d product_id = Some row \<longrightarrow>
        0 \<le> available_stock row \<and> 0 \<le> reserved_stock row)"

fun guarded_op :: "inventory_op \<Rightarrow> bool" where
  "guarded_op (Create product_id stock) = (0 \<le> stock)"
| "guarded_op (Reserve product_id qty) = (0 \<le> qty)"
| "guarded_op (Checkout user_id shipping pay_method) = True"
| "guarded_op _ = False"

section \<open>Sample states\<close>

definition empty_db :: db where
  "empty_db = \<lparr>products = [], inventory = Map.empty, carts = [], cart_items = [],
                orders = [], order_items = [], payments = []\<rparr>"

definition stock5 :: inventory_row where
  "stock5 = \<lparr>total_stock = 5, available_stock = 5, reserved_stock = 0\<rparr>"

definition shelf :: db where
  "shelf = empty_db\<lparr>inventory := [1 \<mapsto> stock5]\<rparr>"

definition shop :: db where
  "shop = empty_db
     \<lparr>products := [\<lparr>prod_id = 1, prod_name = ''A'', price = 10, prod_status = ''active''\<rparr>,
                   \<lparr>prod_id = 2, prod_name = ''B'', price = 1999 / 100, prod_status = ''active''\<rparr>],
      inventory := [1 \<mapsto> stock5, 2 \<mapsto> stock5],
      carts := [\<lparr>cart_id = 1, cart_user_id = 7\<rparr>]\<rparr>"

definition cart_short :: db where
  "cart_short = shop
     \<lparr>cart_items := [\<lparr>ci_id = 1, ci_cart_id = 1, ci_product_id = 1, ci_quantity = 3\<rparr>,
                     \<lparr>ci_id = 2, ci_cart_id = 1, ci_product_id = 2, ci_quantity = 9\<rparr>]\<rparr>"

definition cart_unsorted :: db where
  "cart_unsorted = shop
     \<lparr>cart_items := [\<lparr>ci_id = 1, ci_cart_id = 1, ci_product_id = 2, ci_quantity = 1\<rparr>,
                     \<lparr>ci_id = 2, ci_cart_id = 1, ci_product_id = 1, ci_quantity = 3\<rparr>]\<rparr>"

definition cart_tie :: db where
  "cart_tie = empty_db
     \<lparr>products := [\<lparr>prod_id = 3, prod_name = ''C'', price = 25 / 100, prod_status = ''active''\<rparr>],
      inventory := [3 \<mapsto> stock5],
      carts := [\<lparr>cart_id = 1, cart_user_id = 7\<rparr>],
      cart_items := [\<lparr>ci_id = 1, ci_cart_id = 1, ci_product_id = 3, ci_quantity = 5\<rparr>]\<rparr>"

definition cart_single :: db where
  "cart_single = shop
     \<lparr>cart_items := [\<lparr>ci_id = 1, ci_cart_id = 1, ci_product_id = 1, ci_quantity = 3\<rparr>]\<rparr>"

definition test_gateway :: gateway where
  "test_gateway =
     \<lparr>issue = (\<lambda>n. ''order_'' @ replicate n (CHR ''I'')),
      accepts = (\<lambda>rp_order rp_payment sg. sg = rp_order @ ''|'' @ rp_payment),
      created = [], key_id = ''rzp_test''\<rparr>"

definition order35 :: order where
  "order35 = \<lparr>o_id = 1, o_user_id = 7, total_items = 3, subtotal = 30, tax = 540 / 100,
               discount = 0, grand_total = 3540 / 100, o_status = ''PENDING'',
               shipping_address = None, payment_method = None\<rparr>"

definition session_A :: payment where
  "session_A = \<lparr>p_id = 1, p_order_id = 1, p_user_id = 7, razorpay_order_id = ''order_A'',
                 razorpay_payment_id = Some [], razorpay_signature = Some [],
                 amount = 3540 / 100, currency = ''INR'', p_status = ''PENDING''\<rparr>"

definition paying :: db where
  "paying = empty_db\<lparr>orders := [order35], payments := [session_A]\<rparr>"

definition raced :: db where
  "raced = empty_db
     \<lparr>orders := [order35\<lparr>o_status := ''PAID''\<rparr>],
      payments := [session_A,
                   \<lparr>p_id = 2, p_order_id = 1, p_user_id = 7, razorpay_order_id = ''order_B'',
                    razorpay_payment_id = Some ''pay_1'',
                    razorpay_signature = Some ''order_B|pay_1'',
                    amount = 3540 / 100, currency = ''INR'', p_status = ''SUCCESS''\<rparr>]\<rparr>"

definition callback :: payment_verify_request where
  "callback = \<lparr>v_order_id = 1, v_razorpay_order_id = ''order_A'',
                v_razorpay_payment_id = ''pay_1'', v_razorpay_signature = ''order_A|pay_1''\<rparr>"

definition tampered :: payment_verify_request where
  "tampered = callback\<lparr>v_razorpay_signature := ''forged''\<rparr>"

definition unpaid :: db where
  "unpaid = empty_db\<lparr>orders := [order35]\<rparr>"

section \<open>Basic facts about sessions and rounding\<close>

lemma session_ops_simps [simp]:
  "committed (set_inventory p r s) = committed s"
  "lock_trace (set_inventory p r s) = lock_trace s"
  "committed (add_order_item i s) = committed s"
  "lock_trace (add_order_item i s) = lock_trace s"
  "committed (lock_inventory p s) = committed s"
  "pending (lock_inventory p s) = pending s"
  "lock_trace (lock_inventory p s) = lock_trace s @ [p]"
  "committed (add_order ord s) = committed s"
  "lock_trace (add_order ord s) = lock_trace s"
  "pending (commit s) = pending s"
  "committed (commit s) = pending s"
  "lock_trace (commit s) = lock_trace s"
  by (simp_all add: set_inventory_def add_order_item_def lock_inventory_def add_order_def
      commit_def)

lemma pending_set_inventory [simp]:
  "inventory (pending (set_inventory p r s)) = (inventory (pending s))(p \<mapsto> r)"
  "products (pending (set_inventory p r s)) = products (pending s)"
  "carts (pending (set_inventory p r s)) = carts (pending s)"
  "cart_items (pending (set_inventory p r s)) = cart_items (pending s)"
  "orders (pending (set_inventory p r s)) = orders (pending s)"
  "order_items (pending (set_inventory p r s)) = order_items (pending s)"
  "payments (pending (set_inventory p r s)) = payments (pending s)"
  by (simp_all add: set_inventory_def)

lemma pending_add_order_item [simp]:
  "inventory (pending (add_order_item i s)) = inventory (pending s)"
  "products (pending (add_order_item i s)) = products (pending s)"
  "carts (pending (add_order_item i s)) = carts (pending s)"
  "cart_items (pending (add_order_item i s)) = cart_items (pending s)"
  "orders (pending (add_order_item i s)) = orders (pending s)"
  "order_items (pending (add_order_item i s)) = order_items (pending s) @ [i]"
  "payments (pending (add_order_item i s)) = payments (pending s)"
  by (simp_all add: add_order_item_def)

lemma get_by_product_id_lock [simp]:
  "get_by_product_id (lock_inventory p s) = get_by_product_id s"
  by (simp add: get_by_product_id_def fun_eq_iff)

lemma order_lines_Cons_cases:
  assumes "order_lines oid (ci # rest) s sub n = (s', r)"
  obtains
    (unavailable) "s' = s" "r = Inl (HTTPException 400 ''Product not available'')"
  | (no_inventory) "s' = s" "r = Inl (HTTPException 400 ''Inventory not found'')"
  | (short) "s' = lock_inventory (ci_product_id ci) s"
      "r = Inl (HTTPException 400 ''Insufficient stock'')"
  | (reserved) prd row where
      "prd \<in> set (products (pending s))" "prod_id prd = ci_product_id ci"
      "get_by_product_id s (ci_product_id ci) = Some row"
      "ci_quantity ci \<le> available_stock row"
      "order_lines oid rest (line_state oid ci prd row s)
         (sub + total_price (line_item oid ci prd)) (n + ci_quantity ci) = (s', r)"
proof (cases "find (\<lambda>p. prod_id p = ci_product_id ci \<and> prod_status p = ''active'')
                  (products (pending s))")
  case None
  with assms unavailable show ?thesis by auto
next
  case (Some prd)
  then have prd: "prd \<in> set (products (pending s))" "prod_id prd = ci_product_id ci"
    by (auto simp: find_Some_iff)
  show ?thesis
  proof (cases "get_by_product_id s (prod_id prd)")
    case None
    with Some assms no_inventory show ?thesis by auto
  next
    case (Some row)
    show ?thesis
    proof (cases "available_stock row < ci_quantity ci")
      case True
      with \<open>find _ _ = Some prd\<close> Some assms prd short show ?thesis by (auto simp: Let_def)
    next
      case False
      with \<open>find _ _ = Some prd\<close> Some assms prd reserved [of prd row] show ?thesis
        by (auto simp: Let_def)
    qed
  qed
qed

lemma order_lines_frame:
  "order_lines oid items s sub n = (s', r) \<Longrightarrow>
     committed s' = committed s \<and> products (pending s') = products (pending s) \<and>
     carts (pending s') = carts (pending s) \<and> cart_items (pending s') = cart_items (pending s) \<and>
     orders (pending s') = orders (pending s) \<and> payments (pending s') = payments (pending s)"
proof (induction items arbitrary: s sub n)
  case Nil
  then show ?case by auto
next
  case (Cons ci rest)
  from Cons.prems show ?case
  proof (cases rule: order_lines_Cons_cases)
    case (reserved prd row)
    from Cons.IH [OF reserved(5)] show ?thesis by simp
  qed simp_all
qed

lemma quantize_money_of_int: "quantize_money (of_int k / 100) = of_int k / 100"
proof (cases "0 \<le> k")
  case True
  have "\<lfloor>(of_int k :: rat) + 1 / 2\<rfloor> = k" by linarith
  with True show ?thesis by (simp add: quantize_money_def)
next
  case False
  have "\<lfloor>- (of_int k :: rat) + 1 / 2\<rfloor> = - k" by linarith
  moreover from False have "\<not> 0 \<le> (of_int k :: rat) / 100" by simp
  ultimately show ?thesis by (simp add: quantize_money_def)
qed

lemma cents_iff: "cents v \<longleftrightarrow> (\<exists>k. v = of_int k / 100)"
proof
  assume "cents v"
  then have "v = quantize_money v" by (simp add: cents_def)
  then show "\<exists>k. v = of_int k / 100"
    unfolding quantize_money_def
    by (metis of_int_minus minus_divide_left)
next
  assume "\<exists>k. v = of_int k / 100"
  then obtain k where "v = of_int k / 100" ..
  then show "cents v" unfolding cents_def by (simp only: quantize_money_of_int)
qed

lemma cents_quantize [simp]: "cents (quantize_money v)"
  unfolding cents_iff quantize_money_def by (metis of_int_minus minus_divide_left)

lemma cents_0 [simp]: "cents 0"
  unfolding cents_iff by (rule exI [of _ 0]) simp

lemma cents_add: "cents a \<Longrightarrow> cents b \<Longrightarrow> cents (a + b)"
  unfolding cents_iff by (metis add_divide_distrib of_int_add)

lemma cents_diff: "cents a \<Longrightarrow> cents b \<Longrightarrow> cents (a - b)"
  unfolding cents_iff by (metis diff_divide_distrib of_int_diff)

lemma order_lines_success:
  "order_lines oid items s sub n = (s', Inr (sub', n')) \<Longrightarrow>
     lock_trace s' = lock_trace s @ map ci_product_id items \<and>
     (\<exists>new. order_items (pending s') = order_items (pending s) @ new \<and>
        (\<forall>i\<in>set new. oi_order_id i = oid \<and> cents (unit_price i) \<and>
           total_price i = quantize_money (unit_price i * of_int (quantity i))) \<and>
        sub' = sub + sum_list (map total_price new) \<and>
        n' = n + sum_list (map quantity new) \<and>
        map oi_product_id new = map ci_product_id items \<and>
        map quantity new = map ci_quantity items)"
proof (induction items arbitrary: s sub n)
  case Nil
  then show ?case by simp
next
  case (Cons ci rest)
  from Cons.prems show ?case
  proof (cases rule: order_lines_Cons_cases)
    case (reserved prd row)
    from Cons.IH [OF reserved(5)] obtain new where
      new: "order_items (pending s') = order_items (pending (line_state oid ci prd row s)) @ new"
        "\<forall>i\<in>set new. oi_order_id i = oid \<and> cents (unit_price i) \<and>
           total_price i = quantize_money (unit_price i * of_int (quantity i))"
        "sub' = sub + total_price (line_item oid ci prd) + sum_list (map total_price new)"
        "n' = n + ci_quantity ci + sum_list (map quantity new)"
        "map oi_product_id new = map ci_product_id rest"
        "map quantity new = map ci_quantity rest"
      and tr: "lock_trace s' = lock_trace (line_state oid ci prd row s) @ map ci_product_id rest"
      by blast
    let ?new = "line_item oid ci prd # new"
    have "order_items (pending s') = order_items (pending s) @ ?new"
      using new(1) by simp
    moreover have "\<forall>i\<in>set ?new. oi_order_id i = oid \<and> cents (unit_price i) \<and>
           total_price i = quantize_money (unit_price i * of_int (quantity i))"
      using new(2) by simp
    moreover have "sub' = sub + sum_list (map total_price ?new)"
      using new(3) by simp
    moreover have "n' = n + sum_list (map quantity ?new)"
      using new(4) by simp
    moreover have "map oi_product_id ?new = map ci_product_id (ci # rest)"
      using new(5) reserved(2) by simp
    moreover have "map quantity ?new = map ci_quantity (ci # rest)"
      using new(6) by simp
    moreover have "lock_trace s' = lock_trace s @ map ci_product_id (ci # rest)"
      using tr reserved(2) by simp
    ultimately show ?thesis by blast
  qed simp_all
qed

lemma fold_max_ge: "(a::int) \<le> fold max ids a \<and> (\<forall>x\<in>set ids. x \<le> fold max ids a)"
proof (induction ids arbitrary: a)
  case Nil
  show ?case by simp
next
  case (Cons y ys)
  from Cons [of "max y a"] show ?case by auto
qed

lemma next_id_fresh: "x \<in> set ids \<Longrightarrow> x < next_id ids"
  using fold_max_ge [of 0 ids] by (auto simp: next_id_def)

lemma find_append_last:
  "\<forall>x\<in>set xs. \<not> P x \<Longrightarrow> P y \<Longrightarrow> find P (xs @ [y]) = Some y"
  by (induction xs) auto

lemma create_order_from_cart_cases:
  assumes "create_order_from_cart s u a m = (s', r)"
  obtains
    (no_cart) "s' = s" "r = Inl (HTTPException 400 ''Cart not found or empty'')"
  | (no_items) "s' = s" "r = Inl (HTTPException 400 ''Cart is empty or has no valid items'')"
  | (line_failed) c e where
      "find (\<lambda>c. cart_user_id c = u) (carts (pending s)) = Some c" "cart_lines s c \<noteq> []"
      "order_lines (o_id (new_order s u a m)) (cart_lines s c) (add_order (new_order s u a m) s) 0 0
         = (s', Inl e)"
      "r = Inl e"
  | (created) c s2 sub n where
      "find (\<lambda>c. cart_user_id c = u) (carts (pending s)) = Some c" "cart_lines s c \<noteq> []"
      "order_lines (o_id (new_order s u a m)) (cart_lines s c) (add_order (new_order s u a m) s) 0 0
         = (s2, Inr (sub, n))"
      "s' = commit (delete_cart_items (cart_lines s c)
              (set_order_totals (o_id (new_order s u a m)) n (quantize_money sub)
                 (quantize_money (sub * (18 / 100))) (quantize_money 0)
                 (quantize_money (sub + quantize_money (sub * (18 / 100)) - 0)) s2))"
      "r = Inr (load_order s' (o_id (new_order s u a m)))"
proof (cases "find (\<lambda>c. cart_user_id c = u) (carts (pending s))")
  case None
  with assms no_cart show ?thesis by (auto simp: create_order_from_cart_def)
next
  case (Some c)
  show ?thesis
  proof (cases "cart_lines s c = []")
    case True
    with Some assms no_items show ?thesis by (auto simp: create_order_from_cart_def Let_def)
  next
    case False
    obtain s2 r2 where ol:
      "order_lines (o_id (new_order s u a m)) (cart_lines s c) (add_order (new_order s u a m) s) 0 0
         = (s2, r2)"
      by (cases "order_lines (o_id (new_order s u a m)) (cart_lines s c)
                   (add_order (new_order s u a m) s) 0 0")
    show ?thesis
    proof (cases r2)
      case (Inl e)
      with Some False ol assms line_failed [of c e] show ?thesis
        by (auto simp: create_order_from_cart_def Let_def)
    next
      case (Inr p)
      obtain sub n where p: "p = (sub, n)" by (cases p)
      with Inr Some False ol assms created [of c s2 sub n] show ?thesis
        by (auto simp: create_order_from_cart_def Let_def)
    qed
  qed
qed

lemma checkout_failure_keeps_store:
  assumes "create_order_from_cart s u a m = (s', Inl e)"
  shows "committed s' = committed s"
  using assms
proof (cases rule: create_order_from_cart_cases)
  case (line_failed c e')
  from order_lines_frame [OF line_failed(3)] show ?thesis by simp
qed simp_all

section \<open>Inventory reservation\<close>

lemma in_request_reserve:
  "in_request (\<lambda>s. reserve_stock s pid q) d =
     (case inventory d pid of
        None \<Rightarrow> (d, Inl (HTTPException 400 ''Insufficient stock''))
      | Some row \<Rightarrow>
          if available_stock row < q then (d, Inl (HTTPException 400 ''Insufficient stock''))
          else (d\<lparr>inventory := (inventory d)(pid \<mapsto>
                   row\<lparr>available_stock := available_stock row - q,
                       reserved_stock := reserved_stock row + q\<rparr>)\<rparr>,
                Inr (row\<lparr>available_stock := available_stock row - q,
                       reserved_stock := reserved_stock row + q\<rparr>)))"
  by (simp add: in_request_def reserve_stock_def open_session_def get_by_product_id_def
      set_inventory_def commit_def Let_def split: option.splits)

lemma reserve_attempts_available:
  "inventory d pid = Some r \<Longrightarrow> 0 \<le> available_stock r \<Longrightarrow>
   \<exists>r'. inventory (fst (reserve_attempts d pid qs)) pid = Some r' \<and>
        available_stock r' = available_stock r - snd (reserve_attempts d pid qs) \<and>
        0 \<le> available_stock r'"
proof (induction qs arbitrary: d r)
  case Nil
  then show ?case by simp
next
  case (Cons q qs)
  show ?case
  proof (cases "available_stock r < q")
    case True
    with Cons.prems have step: "in_request (\<lambda>s. reserve_stock s pid q) d
        = (d, Inl (HTTPException 400 ''Insufficient stock''))"
      by (simp add: in_request_reserve)
    from Cons.IH [OF Cons.prems] show ?thesis
      by (simp add: step)
  next
    case False
    let ?r1 = "r\<lparr>available_stock := available_stock r - q,
                  reserved_stock := reserved_stock r + q\<rparr>"
    let ?d1 = "d\<lparr>inventory := (inventory d)(pid \<mapsto> ?r1)\<rparr>"
    from False Cons.prems have step: "in_request (\<lambda>s. reserve_stock s pid q) d = (?d1, Inr ?r1)"
      by (simp add: in_request_reserve)
    have a: "inventory ?d1 pid = Some ?r1" by simp
    have b: "0 \<le> available_stock ?r1" using False by simp
    from Cons.IH [OF a b] show ?thesis
      by (auto simp: step split: prod.splits)
  qed
qed

lemma reserve_attempts_bound:
  "inventory d pid = Some r \<Longrightarrow> snd (reserve_attempts d pid qs) \<le> max 0 (available_stock r)"
proof (induction qs arbitrary: d r)
  case Nil
  then show ?case by simp
next
  case (Cons q qs)
  show ?case
  proof (cases "available_stock r < q")
    case True
    with Cons.prems have step: "in_request (\<lambda>s. reserve_stock s pid q) d
        = (d, Inl (HTTPException 400 ''Insufficient stock''))"
      by (simp add: in_request_reserve)
    from Cons.IH [OF Cons.prems] show ?thesis by (simp add: step)
  next
    case False
    let ?r1 = "r\<lparr>available_stock := available_stock r - q,
                  reserved_stock := reserved_stock r + q\<rparr>"
    let ?d1 = "d\<lparr>inventory := (inventory d)(pid \<mapsto> ?r1)\<rparr>"
    from False Cons.prems have step: "in_request (\<lambda>s. reserve_stock s pid q) d = (?d1, Inr ?r1)"
      by (simp add: in_request_reserve)
    have a: "inventory ?d1 pid = Some ?r1" by simp
    have b: "0 \<le> available_stock ?r1" using False by simp
    from reserve_attempts_available [OF a b, of qs]
    have "snd (reserve_attempts ?d1 pid qs) \<le> available_stock r - q" by auto
    then show ?thesis by (auto simp: step split: prod.splits)
  qed
qed

lemma reserve_attempts_no_row:
  "inventory d pid = None \<Longrightarrow> reserve_attempts d pid qs = (d, 0)"
  by (induction qs) (simp_all add: in_request_reserve)

text \<open>
  Claim C2. \<open>reserve_stock\<close> succeeds exactly when the product has an inventory row
  whose available stock covers the quantity; it then moves the quantity from available
  to reserved and commits. In every other case it raises the 400 "Insufficient stock"
  error and leaves the session as it was. Over any run of reservation requests on one
  product, starting from a row with non-negative available stock, the quantities
  granted add up to at most the stock available before the first request. From any row
  at all they add up to at most the non-negative part of its available stock, and
  without a row nothing is granted.
\<close>

theorem reserve_stock_no_oversell:
  "(get_by_product_id s pid = Some row \<and> qty \<le> available_stock row \<longrightarrow>
      reserve_stock s pid qty =
        (commit (set_inventory pid
                   (row\<lparr>available_stock := available_stock row - qty,
                        reserved_stock := reserved_stock row + qty\<rparr>) s),
         Inr (row\<lparr>available_stock := available_stock row - qty,
                  reserved_stock := reserved_stock row + qty\<rparr>))) \<and>
   ((\<forall>row. get_by_product_id s pid = Some row \<longrightarrow> available_stock row < qty) \<longrightarrow>
      reserve_stock s pid qty = (s, Inl (HTTPException 400 ''Insufficient stock''))) \<and>
   (inventory d pid = Some r \<and> 0 \<le> available_stock r \<longrightarrow>
      snd (reserve_attempts d pid qs) \<le> available_stock r) \<and>
   (inventory d pid = Some r \<longrightarrow>
      snd (reserve_attempts d pid qs) \<le> max 0 (available_stock r)) \<and>
   (inventory d pid = None \<longrightarrow> reserve_attempts d pid qs = (d, 0))"
proof (intro conjI impI)
  assume "get_by_product_id s pid = Some row \<and> qty \<le> available_stock row"
  then show "reserve_stock s pid qty =
        (commit (set_inventory pid
                   (row\<lparr>available_stock := available_stock row - qty,
                        reserved_stock := reserved_stock row + qty\<rparr>) s),
         Inr (row\<lparr>available_stock := available_stock row - qty,
                  reserved_stock := reserved_stock row + qty\<rparr>))"
    by (simp add: reserve_stock_def Let_def)
next
  assume "\<forall>row. get_by_product_id s pid = Some row \<longrightarrow> available_stock row < qty"
  then show "reserve_stock s pid qty = (s, Inl (HTTPException 400 ''Insufficient stock''))"
    by (simp add: reserve_stock_def split: option.splits)
next
  assume "inventory d pid = Some r \<and> 0 \<le> available_stock r"
  then obtain r' :: inventory_row where
    "available_stock r' = available_stock r - snd (reserve_attempts d pid qs)"
    "0 \<le> available_stock r'"
    using reserve_attempts_available [of d pid r qs] by blast
  then show "snd (reserve_attempts d pid qs) \<le> available_stock r" by simp
next
  assume "inventory d pid = Some r"
  then show "snd (reserve_attempts d pid qs) \<le> max 0 (available_stock r)"
    by (rule reserve_attempts_bound)
next
  assume "inventory d pid = None"
  then show "reserve_attempts d pid qs = (d, 0)"
    by (rule reserve_attempts_no_row)
qed

theorem reserve_stock_no_oversell_witness:
  "get_by_product_id (open_session shelf) 1 = Some stock5 \<and> 3 \<le> available_stock stock5 \<and>
   inventory (committed (fst (reserve_stock (open_session shelf) 1 3))) 1 =
     Some \<lparr>total_stock = 5, available_stock = 2, reserved_stock = 3\<rparr> \<and>
   available_stock stock5 < 7 \<and>
   reserve_stock (open_session shelf) 1 7 =
     (open_session shelf, Inl (HTTPException 400 ''Insufficient stock'')) \<and>
   inventory shelf 1 = Some stock5 \<and> 0 \<le> available_stock stock5 \<and>
   snd (reserve_attempts shelf 1 [3, 7, 2]) \<le> 5 \<and>
   snd (reserve_attempts shelf 1 [3, 7, 2]) = 5 \<and>
   inventory shelf 2 = None \<and> reserve_attempts shelf 2 [3, 7, 2] = (shelf, 0)"
proof -
  have h1: "get_by_product_id (open_session shelf) 1 = Some stock5 \<and> 3 \<le> available_stock stock5"
    by (simp add: get_by_product_id_def open_session_def shelf_def stock5_def)
  have h2: "\<forall>row. get_by_product_id (open_session shelf) 1 = Some row \<longrightarrow> available_stock row < 7"
    by (simp add: get_by_product_id_def open_session_def shelf_def stock5_def)
  have h3: "inventory shelf 1 = Some stock5 \<and> 0 \<le> available_stock stock5"
    by (simp add: shelf_def stock5_def)
  from h1 reserve_stock_no_oversell [where s = "open_session shelf" and pid = 1 and row = stock5 and qty = 3]
  have c1: "inventory (committed (fst (reserve_stock (open_session shelf) 1 3))) 1 =
     Some \<lparr>total_stock = 5, available_stock = 2, reserved_stock = 3\<rparr>"
    by (simp add: commit_def set_inventory_def stock5_def)
  from h2 reserve_stock_no_oversell [where s = "open_session shelf" and pid = 1 and qty = 7]
  have c2: "reserve_stock (open_session shelf) 1 7 =
     (open_session shelf, Inl (HTTPException 400 ''Insufficient stock''))"
    by blast
  from h3 reserve_stock_no_oversell [where d = shelf and pid = 1 and r = stock5 and qs = "[3, 7, 2]"]
  have c3: "snd (reserve_attempts shelf 1 [3, 7, 2]) \<le> 5"
    by (simp add: stock5_def)
  have h2': "available_stock stock5 < 7" by (simp add: stock5_def)
  have c4: "snd (reserve_attempts shelf 1 [3, 7, 2]) = 5" by code_simp
  have h5: "inventory shelf 2 = None" by (simp add: shelf_def empty_db_def)
  from h5 reserve_stock_no_oversell [where d = shelf and pid = 2 and qs = "[3, 7, 2]"]
  have c5: "reserve_attempts shelf 2 [3, 7, 2] = (shelf, 0)" by blast
  from h1 h2' h3 c1 c2 c3 c4 h5 c5 show ?thesis by blast
qed

section \<open>Checkout: failure and line order\<close>

text \<open>
  Claim C3. Whenever \<open>create_order_from_cart\<close> raises (cart missing, no valid item,
  product not active, inventory row missing, stock short on some line), the store is
  exactly what it was before the call: no order, no order item, no cart deletion and no
  reservation of that attempt is committed. Reservations made for earlier lines exist
  only in the session's unit of work, which is dropped when the request ends.
\<close>

theorem checkout_all_or_nothing:
  "(create_order_from_cart s user_id shipping pay_method = (s', Inl e) \<longrightarrow>
      committed s' = committed s) \<and>
   (in_request (\<lambda>s. create_order_from_cart s user_id shipping pay_method) d = (d', Inl e) \<longrightarrow>
      d' = d)"
proof (intro conjI impI)
  assume "create_order_from_cart s user_id shipping pay_method = (s', Inl e)"
  then show "committed s' = committed s" by (rule checkout_failure_keeps_store)
next
  assume a: "in_request (\<lambda>s. create_order_from_cart s user_id shipping pay_method) d = (d', Inl e)"
  obtain s1 r where run: "create_order_from_cart (open_session d) user_id shipping pay_method = (s1, r)"
    by (cases "create_order_from_cart (open_session d) user_id shipping pay_method")
  with a have "r = Inl e" "d' = committed s1" by (simp_all add: in_request_def)
  with run checkout_failure_keeps_store [of "open_session d" user_id shipping pay_method s1 e]
  show "d' = d" by (simp add: open_session_def)
qed

theorem checkout_all_or_nothing_witness:
  "snd (create_order_from_cart (open_session cart_short) 7 None None)
     = Inl (HTTPException 400 ''Insufficient stock'') \<and>
   inventory (pending (fst (create_order_from_cart (open_session cart_short) 7 None None))) 1
     = Some \<lparr>total_stock = 5, available_stock = 2, reserved_stock = 3\<rparr> \<and>
   committed (fst (create_order_from_cart (open_session cart_short) 7 None None)) = cart_short \<and>
   snd (in_request (\<lambda>s. create_order_from_cart s 7 None None) cart_short)
     = Inl (HTTPException 400 ''Insufficient stock'') \<and>
   fst (in_request (\<lambda>s. create_order_from_cart s 7 None None) cart_short) = cart_short"
proof -
  let ?run = "create_order_from_cart (open_session cart_short) 7 None None"
  have r: "snd ?run = Inl (HTTPException 400 ''Insufficient stock'')"
    by code_simp
  have p: "inventory (pending (fst ?run)) 1
     = Some \<lparr>total_stock = 5, available_stock = 2, reserved_stock = 3\<rparr>"
    by code_simp
  from r have eq: "?run = (fst ?run, Inl (HTTPException 400 ''Insufficient stock''))"
    by (metis prod.collapse)
  from eq checkout_all_or_nothing [where s = "open_session cart_short" and user_id = 7
      and shipping = None and pay_method = None and s' = "fst ?run"
      and e = "HTTPException 400 ''Insufficient stock''"]
  have c: "committed (fst ?run) = cart_short"
    by (simp add: open_session_def)
  let ?req = "in_request (\<lambda>s. create_order_from_cart s 7 None None) cart_short"
  have r2: "snd ?req = Inl (HTTPException 400 ''Insufficient stock'')"
    using r by (simp add: in_request_def case_prod_unfold)
  then have "?req = (fst ?req, Inl (HTTPException 400 ''Insufficient stock''))"
    by (metis prod.collapse)
  with checkout_all_or_nothing [where d = cart_short and user_id = 7
      and shipping = None and pay_method = None and d' = "fst ?req"
      and e = "HTTPException 400 ''Insufficient stock''"]
  have c2: "fst ?req = cart_short" by blast
  from r p c r2 c2 show ?thesis by blast
qed

text \<open>
  Claim C9, as the code has it. \<open>create_order_from_cart\<close> does not sort: it walks the
  positive-quantity items of the cart in the order the cart's item collection yields
  them, and on success the inventory rows were locked in exactly that order.
\<close>

theorem checkout_lock_order:
  assumes "create_order_from_cart s user_id shipping pay_method = (s', Inr res)"
  shows "\<exists>c. find (\<lambda>c. cart_user_id c = user_id) (carts (pending s)) = Some c \<and>
         lock_trace s' = lock_trace s @
           map ci_product_id
             (valid_items (filter (\<lambda>i. ci_cart_id i = cart_id c) (cart_items (pending s))))"
  using assms
proof (cases rule: create_order_from_cart_cases)
  case (created c s2 sub n)
  from order_lines_success [OF created(3)]
  have "lock_trace s2 = lock_trace s @ map ci_product_id (cart_lines s c)" by simp
  with created show ?thesis
    by (simp add: delete_cart_items_def set_order_totals_def)
qed simp_all

theorem checkout_lock_order_witness:
  "(\<exists>res. snd (create_order_from_cart (open_session cart_unsorted) 7 None None) = Inr res) \<and>
   (\<exists>c. find (\<lambda>c. cart_user_id c = 7) (carts (pending (open_session cart_unsorted))) = Some c \<and>
        lock_trace (fst (create_order_from_cart (open_session cart_unsorted) 7 None None)) =
          lock_trace (open_session cart_unsorted) @
            map ci_product_id
              (valid_items (filter (\<lambda>i. ci_cart_id i = cart_id c)
                 (cart_items (pending (open_session cart_unsorted))))))"
proof -
  let ?run = "create_order_from_cart (open_session cart_unsorted) 7 None None"
  have "\<not> isl (snd ?run)" by code_simp
  then obtain res where r: "snd ?run = Inr res" by (cases "snd ?run") auto
  then have "?run = (fst ?run, Inr res)" by (metis prod.collapse)
  from checkout_lock_order [OF this] r show ?thesis by blast
qed

text \<open>
  A cart holding product 2 before product 1 has its inventory rows locked in the order
  2, 1: the lock sequence is not ascending by product id.
\<close>

theorem checkout_lock_order_unsorted:
  "lock_trace (fst (create_order_from_cart (open_session cart_unsorted) 7 None None)) = [2, 1] \<and>
   \<not> sorted (lock_trace (fst (create_order_from_cart (open_session cart_unsorted) 7 None None)))"
proof -
  have "lock_trace (fst (create_order_from_cart (open_session cart_unsorted) 7 None None)) = [2, 1]"
    by code_simp
  then show ?thesis by simp
qed

section \<open>Checkout: pricing\<close>

lemma cents_sum_list: "(\<forall>x\<in>set xs. cents x) \<Longrightarrow> cents (sum_list xs)"
  by (induction xs) (auto intro: cents_add)

lemma find_fresh_order:
  assumes "\<forall>x\<in>set xs. o_id x \<noteq> oid" "o_id y = oid" "\<And>x. o_id (f x) = o_id x"
  shows "find (\<lambda>ord. o_id ord = oid) (map f (xs @ [y])) = Some (f y)"
  using assms by (induction xs) auto

lemma half_up_nonneg:
  fixes w :: rat
  assumes "0 \<le> w"
  defines "k \<equiv> \<lfloor>w * 100 + 1 / 2\<rfloor>"
  shows "- (1 / 200) < of_int k / 100 - w" "of_int k / 100 - w \<le> 1 / 200" "0 \<le> k"
proof -
  have "of_int k \<le> w * 100 + 1 / 2" "w * 100 + 1 / 2 < of_int k + 1"
    unfolding k_def by linarith+
  then show "- (1 / 200) < of_int k / 100 - w" "of_int k / 100 - w \<le> 1 / 200"
    by (simp_all add: field_simps)
  have "0 \<le> w * 100 + 1 / 2" using assms(1) by simp
  then show "0 \<le> k" unfolding k_def by simp
qed

lemma half_up_arith:
  fixes a v :: rat
  assumes "0 \<le> v" "- (1 / 200) < a - v" "a - v \<le> 1 / 200"
  shows "\<bar>a - v\<bar> < 1 / 200 \<or> (\<bar>a - v\<bar> = 1 / 200 \<and> \<bar>v\<bar> < \<bar>a\<bar>)"
proof (cases "a - v = 1 / 200")
  case True
  then have "a = v + 1 / 200" by simp
  with assms(1) have "\<bar>v\<bar> < \<bar>a\<bar>" by simp
  with True show ?thesis by simp
next
  case False
  with assms have "\<bar>a - v\<bar> < 1 / 200" by linarith
  then show ?thesis ..
qed

lemma quantize_money_half_up: "rounded_half_up v (quantize_money v)"
proof (cases "0 \<le> v")
  case True
  let ?k = "\<lfloor>v * 100 + 1 / 2\<rfloor>"
  from half_up_nonneg [OF True]
  have b: "- (1 / 200) < of_int ?k / 100 - v" "of_int ?k / 100 - v \<le> 1 / 200" by simp_all
  have q: "quantize_money v = of_int ?k / 100" using True by (simp add: quantize_money_def)
  have "\<bar>of_int ?k / 100 - v\<bar> < 1 / 200 \<or>
        (\<bar>of_int ?k / 100 - v\<bar> = 1 / 200 \<and> \<bar>v\<bar> < \<bar>of_int ?k / 100\<bar>)"
    using b True by (intro half_up_arith)
  then show ?thesis unfolding rounded_half_up_def q by blast
next
  case False
  then have w: "0 \<le> - v" by simp
  let ?k = "\<lfloor>- v * 100 + 1 / 2\<rfloor>"
  from half_up_nonneg [OF w]
  have b: "- (1 / 200) < of_int ?k / 100 - (- v)" "of_int ?k / 100 - (- v) \<le> 1 / 200" by simp_all
  have q: "quantize_money v = of_int (- ?k) / 100" using False by (simp add: quantize_money_def)
  have "\<bar>of_int ?k / 100 - (- v)\<bar> < 1 / 200 \<or>
        (\<bar>of_int ?k / 100 - (- v)\<bar> = 1 / 200 \<and> \<bar>- v\<bar> < \<bar>of_int ?k / 100\<bar>)"
    using b w by (intro half_up_arith)
  moreover have "of_int (- ?k) / 100 - v = - (of_int ?k / 100 - (- v))" by simp
  moreover have "\<bar>of_int (- ?k) / 100 :: rat\<bar> = \<bar>of_int ?k / 100\<bar>" by simp
  ultimately have "\<bar>of_int (- ?k) / 100 - v\<bar> < 1 / 200 \<or>
        (\<bar>of_int (- ?k) / 100 - v\<bar> = 1 / 200 \<and> \<bar>v\<bar> < \<bar>of_int (- ?k) / 100\<bar>)"
    by (simp only: abs_minus_cancel)
  then show ?thesis unfolding rounded_half_up_def q by blast
qed

lemma rounded_half_up_neg: "rounded_half_up v q \<Longrightarrow> rounded_half_up (- v) (- q)"
proof -
  assume a: "rounded_half_up v q"
  then obtain k where k: "q = of_int k / 100" unfolding rounded_half_up_def by blast
  then have "- q = of_int (- k) / 100" by simp
  then have "\<exists>k. - q = of_int k / 100" ..
  moreover have "\<bar>- q - (- v)\<bar> = \<bar>q - v\<bar>" by (simp add: abs_minus_commute)
  ultimately show ?thesis using a unfolding rounded_half_up_def by simp
qed

lemma rounded_half_up_nonneg_unique:
  assumes "0 \<le> w" "rounded_half_up w q"
  shows "q = of_int \<lfloor>w * 100 + 1 / 2\<rfloor> / 100"
proof -
  from assms(2) obtain k where k: "q = of_int k / 100"
    and near: "\<bar>q - w\<bar> < 1 / 200 \<or> (\<bar>q - w\<bar> = 1 / 200 \<and> \<bar>w\<bar> < \<bar>q\<bar>)"
    unfolding rounded_half_up_def by blast
  have up: "q - w \<le> 1 / 200" using near by linarith
  have low: "- (1 / 200) < q - w"
  proof (rule ccontr)
    assume "\<not> - (1 / 200) < q - w"
    with near have tie: "q - w = - (1 / 200)" "\<bar>w\<bar> < \<bar>q\<bar>" by linarith+
    from tie(1) assms(1) have "- (1 / 2) \<le> (of_int k :: rat)" unfolding k by simp
    then have "0 \<le> k" by linarith
    then have "0 \<le> q" unfolding k by simp
    with tie assms(1) show False by linarith
  qed
  have "of_int k \<le> w * 100 + 1 / 2" using up unfolding k by (simp add: field_simps)
  moreover have "w * 100 + 1 / 2 < of_int k + 1" using low unfolding k by (simp add: field_simps)
  ultimately have "\<lfloor>w * 100 + 1 / 2\<rfloor> = k" by (intro floor_unique)
  then show ?thesis by (simp add: k)
qed

lemma rounded_half_up_iff: "rounded_half_up v q \<longleftrightarrow> q = quantize_money v"
proof
  assume a: "rounded_half_up v q"
  show "q = quantize_money v"
  proof (cases "0 \<le> v")
    case True
    with rounded_half_up_nonneg_unique [OF True a] show ?thesis
      by (simp add: quantize_money_def)
  next
    case False
    then have "0 \<le> - v" by simp
    from rounded_half_up_nonneg_unique [OF this rounded_half_up_neg [OF a]]
    have "q = - (of_int \<lfloor>- v * 100 + 1 / 2\<rfloor> / 100)" by simp
    with False show ?thesis by (simp add: quantize_money_def)
  qed
next
  assume "q = quantize_money v"
  then show "rounded_half_up v q" by (simp add: quantize_money_half_up)
qed

lemma order_lines_prices:
  "order_lines oid items s sub n = (s', Inr (sub', n')) \<Longrightarrow>
     order_items (pending s') = order_items (pending s) @ new \<Longrightarrow>
     \<forall>i\<in>set new. \<exists>prd\<in>set (products (pending s)).
        prod_id prd = oi_product_id i \<and> unit_price i = quantize_money (price prd)"
proof (induction items arbitrary: s sub n new)
  case Nil
  then show ?case by simp
next
  case (Cons ci rest)
  from Cons.prems(1) show ?case
  proof (cases rule: order_lines_Cons_cases)
    case (reserved prd row)
    from order_lines_success [OF reserved(5)] obtain new' where
      new': "order_items (pending s') = order_items (pending (line_state oid ci prd row s)) @ new'"
      by blast
    with Cons.prems(2) have new: "new = line_item oid ci prd # new'" by simp
    from Cons.IH [OF reserved(5) new']
    have "\<forall>i\<in>set new'. \<exists>prd\<in>set (products (pending s)).
        prod_id prd = oi_product_id i \<and> unit_price i = quantize_money (price prd)"
      by simp
    moreover have "\<exists>p\<in>set (products (pending s)).
        prod_id p = oi_product_id (line_item oid ci prd) \<and>
        unit_price (line_item oid ci prd) = quantize_money (price p)"
      using reserved(1) by (intro bexI [of _ prd]) simp_all
    ultimately show ?thesis unfolding new by simp
  qed simp_all
qed

lemma checkout_success_order:
  assumes run: "create_order_from_cart s user_id shipping pay_method = (s', Inr res)"
    and fk: "\<forall>i\<in>set (order_items (pending s)). \<exists>ord\<in>set (orders (pending s)). o_id ord = oi_order_id i"
  shows "\<exists>c sub n new.
     find (\<lambda>c. cart_user_id c = user_id) (carts (pending s)) = Some c \<and>
     res = Some ((new_order s user_id shipping pay_method)
                  \<lparr>total_items := n, subtotal := quantize_money sub,
                   tax := quantize_money (sub * (18 / 100)), discount := quantize_money 0,
                   grand_total := quantize_money (sub + quantize_money (sub * (18 / 100)) - 0)\<rparr>, new) \<and>
     (\<forall>i\<in>set new. oi_order_id i = o_id (new_order s user_id shipping pay_method) \<and>
        cents (unit_price i) \<and>
        total_price i = quantize_money (unit_price i * of_int (quantity i))) \<and>
     (\<forall>i\<in>set new. \<exists>prd\<in>set (products (pending s)).
        prod_id prd = oi_product_id i \<and> unit_price i = quantize_money (price prd)) \<and>
     sub = sum_list (map total_price new) \<and> n = sum_list (map quantity new) \<and>
     map oi_product_id new = map ci_product_id (cart_lines s c) \<and>
     map quantity new = map ci_quantity (cart_lines s c) \<and> cart_lines s c \<noteq> []"
  using run
proof (cases rule: create_order_from_cart_cases)
  case (created c s2 sub n)
  let ?oid = "o_id (new_order s user_id shipping pay_method)"
  let ?f = "\<lambda>ord. if o_id ord = ?oid
                    then ord\<lparr>total_items := n, subtotal := quantize_money sub,
                       tax := quantize_money (sub * (18 / 100)), discount := quantize_money 0,
                       grand_total := quantize_money (sub + quantize_money (sub * (18 / 100)) - 0)\<rparr>
                    else ord"
  from order_lines_success [OF created(3)] obtain new where
    new: "order_items (pending s2) = order_items (pending s) @ new"
      "\<forall>i\<in>set new. oi_order_id i = ?oid \<and> cents (unit_price i) \<and>
           total_price i = quantize_money (unit_price i * of_int (quantity i))"
      "sub = sum_list (map total_price new)" "n = sum_list (map quantity new)"
      "map oi_product_id new = map ci_product_id (cart_lines s c)"
      "map quantity new = map ci_quantity (cart_lines s c)"
    by (auto simp: add_order_def)
  from order_lines_frame [OF created(3)]
  have ords: "orders (pending s2) = orders (pending s) @ [new_order s user_id shipping pay_method]"
    by (simp add: add_order_def)
  have fresh: "\<forall>x\<in>set (orders (pending s)). o_id x \<noteq> ?oid"
    using next_id_fresh [of _ "map o_id (orders (pending s))"] by fastforce
  have o': "orders (pending s') = map ?f (orders (pending s2))"
    using created(4) by (simp add: delete_cart_items_def set_order_totals_def)
  have i': "order_items (pending s') = order_items (pending s) @ new"
    using created(4) new(1) by (simp add: delete_cart_items_def set_order_totals_def)
  have fnd: "find (\<lambda>ord. o_id ord = ?oid) (orders (pending s'))
      = Some (?f (new_order s user_id shipping pay_method))"
    unfolding o' ords by (rule find_fresh_order) (use fresh in auto)
  have old: "filter (\<lambda>i. oi_order_id i = ?oid) (order_items (pending s)) = []"
    using fk fresh by (auto simp: filter_empty_conv)
  have nw: "filter (\<lambda>i. oi_order_id i = ?oid) new = new"
    using new(2) by (auto simp: filter_id_conv)
  have "load_order s' ?oid = Some (?f (new_order s user_id shipping pay_method), new)"
    using fnd [simplified] old [simplified] nw [simplified]
    by (simp add: load_order_def i')
  moreover from order_lines_prices [OF created(3), of new] new(1)
  have "\<forall>i\<in>set new. \<exists>prd\<in>set (products (pending s)).
        prod_id prd = oi_product_id i \<and> unit_price i = quantize_money (price prd)"
    by (simp add: add_order_def)
  ultimately show ?thesis using created(1,2,5) new by auto
qed simp_all

text \<open>
  Claim C8. For every order that \<open>create_order_from_cart\<close> creates (in a store whose
  order items all refer to existing orders, as the foreign key demands): every unit
  price is the price of its product rounded half-up to two decimals, every line total
  is the half-up rounding of that unit price times the quantity, the subtotal is the sum
  of the line totals, the tax is 18 percent of the subtotal rounded half-up to two
  decimals, the discount is zero, and the grand total is exactly
  subtotal + tax - discount; subtotal and grand total are whole cents, so their own
  rounding leaves them as they are. Rounding half-up is stated on its own terms by
  \<open>rounded_half_up\<close>, and \<open>quantize_money\<close> computes exactly that relation.
\<close>

theorem order_totals_rounding:
  assumes "create_order_from_cart s user_id shipping pay_method = (s', Inr res)"
    and "\<forall>i\<in>set (order_items (pending s)). \<exists>ord\<in>set (orders (pending s)). o_id ord = oi_order_id i"
  shows "(\<forall>v q. rounded_half_up v q \<longleftrightarrow> q = quantize_money v) \<and>
    (\<exists>ord items. res = Some (ord, items) \<and> items \<noteq> [] \<and>
     (\<forall>i\<in>set items. quantize_money (unit_price i) = unit_price i \<and>
        total_price i = quantize_money (unit_price i * of_int (quantity i)) \<and>
        rounded_half_up (unit_price i * of_int (quantity i)) (total_price i) \<and>
        (\<exists>prd\<in>set (products (pending s)).
           prod_id prd = oi_product_id i \<and> rounded_half_up (price prd) (unit_price i))) \<and>
     subtotal ord = sum_list (map total_price items) \<and>
     quantize_money (subtotal ord) = subtotal ord \<and>
     rounded_half_up (sum_list (map total_price items)) (subtotal ord) \<and>
     tax ord = quantize_money (subtotal ord * (18 / 100)) \<and>
     rounded_half_up (subtotal ord * (18 / 100)) (tax ord) \<and>
     discount ord = 0 \<and>
     rounded_half_up 0 (discount ord) \<and>
     grand_total ord = subtotal ord + tax ord - discount ord \<and>
     quantize_money (grand_total ord) = grand_total ord \<and>
     rounded_half_up (subtotal ord + tax ord - discount ord) (grand_total ord))"
proof (intro conjI allI)
  fix v q
  show "rounded_half_up v q \<longleftrightarrow> q = quantize_money v" by (rule rounded_half_up_iff)
next
  from checkout_success_order [OF assms] obtain c sub n new where
    res: "res = Some ((new_order s user_id shipping pay_method)
                  \<lparr>total_items := n, subtotal := quantize_money sub,
                   tax := quantize_money (sub * (18 / 100)), discount := quantize_money 0,
                   grand_total := quantize_money (sub + quantize_money (sub * (18 / 100)) - 0)\<rparr>, new)"
    and new: "\<forall>i\<in>set new. oi_order_id i = o_id (new_order s user_id shipping pay_method) \<and>
        cents (unit_price i) \<and>
        total_price i = quantize_money (unit_price i * of_int (quantity i))"
    and prices: "\<forall>i\<in>set new. \<exists>prd\<in>set (products (pending s)).
        prod_id prd = oi_product_id i \<and> unit_price i = quantize_money (price prd)"
    and sub: "sub = sum_list (map total_price new)"
    and q: "map quantity new = map ci_quantity (cart_lines s c)" "cart_lines s c \<noteq> []"
    by blast
  have "\<forall>x\<in>set (map total_price new). cents x"
    using new by (auto simp: cents_quantize)
  then have csub: "cents sub" unfolding sub by (rule cents_sum_list)
  then have qsub: "quantize_money sub = sub" by (simp add: cents_def)
  have "cents (sub + quantize_money (sub * (18 / 100)) - 0)"
    by (intro cents_diff cents_add csub cents_quantize cents_0)
  then have qgrand: "quantize_money (sub + quantize_money (sub * (18 / 100)) - 0)
      = sub + quantize_money (sub * (18 / 100)) - 0"
    by (simp add: cents_def)
  have q0: "quantize_money 0 = 0" using cents_0 by (simp add: cents_def)
  have ne: "new \<noteq> []" using q by auto
  let ?ord = "(new_order s user_id shipping pay_method)
                  \<lparr>total_items := n, subtotal := quantize_money sub,
                   tax := quantize_money (sub * (18 / 100)), discount := quantize_money 0,
                   grand_total := quantize_money (sub + quantize_money (sub * (18 / 100)) - 0)\<rparr>"
  have "res = Some (?ord, new)" by (rule res)
  moreover have "\<forall>i\<in>set new. quantize_money (unit_price i) = unit_price i \<and>
        total_price i = quantize_money (unit_price i * of_int (quantity i)) \<and>
        rounded_half_up (unit_price i * of_int (quantity i)) (total_price i) \<and>
        (\<exists>prd\<in>set (products (pending s)).
           prod_id prd = oi_product_id i \<and> rounded_half_up (price prd) (unit_price i))"
  proof
    fix i assume i: "i \<in> set new"
    with new have a: "quantize_money (unit_price i) = unit_price i"
      "total_price i = quantize_money (unit_price i * of_int (quantity i))"
      by (auto simp: cents_def)
    from a(2) have b: "rounded_half_up (unit_price i * of_int (quantity i)) (total_price i)"
      by (simp only: rounded_half_up_iff)
    from prices i obtain prd where "prd \<in> set (products (pending s))"
      "prod_id prd = oi_product_id i" "unit_price i = quantize_money (price prd)" by blast
    then have "\<exists>prd\<in>set (products (pending s)).
           prod_id prd = oi_product_id i \<and> rounded_half_up (price prd) (unit_price i)"
      by (auto simp: rounded_half_up_iff)
    with a b show "quantize_money (unit_price i) = unit_price i \<and>
        total_price i = quantize_money (unit_price i * of_int (quantity i)) \<and>
        rounded_half_up (unit_price i * of_int (quantity i)) (total_price i) \<and>
        (\<exists>prd\<in>set (products (pending s)).
           prod_id prd = oi_product_id i \<and> rounded_half_up (price prd) (unit_price i))"
      by blast
  qed
  moreover have "subtotal ?ord = sum_list (map total_price new)"
    using qsub sub by simp
  moreover have "quantize_money (subtotal ?ord) = subtotal ?ord"
    using qsub by simp
  moreover have "rounded_half_up (sum_list (map total_price new)) (subtotal ?ord)"
    unfolding rounded_half_up_iff using sub by simp
  moreover have "tax ?ord = quantize_money (subtotal ?ord * (18 / 100))"
    using qsub by simp
  moreover have "rounded_half_up (subtotal ?ord * (18 / 100)) (tax ?ord)"
    unfolding rounded_half_up_iff using qsub by simp
  moreover have "discount ?ord = 0" using q0 by simp
  moreover have "rounded_half_up 0 (discount ?ord)"
    unfolding rounded_half_up_iff by simp
  moreover have "grand_total ?ord = subtotal ?ord + tax ?ord - discount ?ord"
    using qgrand qsub q0 by simp
  moreover have "quantize_money (grand_total ?ord) = grand_total ?ord"
    using qgrand by simp
  moreover have "rounded_half_up (subtotal ?ord + tax ?ord - discount ?ord) (grand_total ?ord)"
    unfolding rounded_half_up_iff using qsub q0 by simp
  ultimately show "\<exists>ord items. res = Some (ord, items) \<and> items \<noteq> [] \<and>
     (\<forall>i\<in>set items. quantize_money (unit_price i) = unit_price i \<and>
        total_price i = quantize_money (unit_price i * of_int (quantity i)) \<and>
        rounded_half_up (unit_price i * of_int (quantity i)) (total_price i) \<and>
        (\<exists>prd\<in>set (products (pending s)).
           prod_id prd = oi_product_id i \<and> rounded_half_up (price prd) (unit_price i))) \<and>
     subtotal ord = sum_list (map total_price items) \<and>
     quantize_money (subtotal ord) = subtotal ord \<and>
     rounded_half_up (sum_list (map total_price items)) (subtotal ord) \<and>
     tax ord = quantize_money (subtotal ord * (18 / 100)) \<and>
     rounded_half_up (subtotal ord * (18 / 100)) (tax ord) \<and>
     discount ord = 0 \<and>
     rounded_half_up 0 (discount ord) \<and>
     grand_total ord = subtotal ord + tax ord - discount ord \<and>
     quantize_money (grand_total ord) = grand_total ord \<and>
     rounded_half_up (subtotal ord + tax ord - discount ord) (grand_total ord)"
    using ne by blast
qed

theorem order_totals_rounding_witness:
  "snd (create_order_from_cart (open_session cart_single) 7 None None) =
     Inr (Some (\<lparr>o_id = 1, o_user_id = 7, total_items = 3, subtotal = 30, tax = 540 / 100,
                   discount = 0, grand_total = 3540 / 100, o_status = ''PENDING'',
                   shipping_address = None, payment_method = None\<rparr>,
                [\<lparr>oi_order_id = 1, oi_product_id = 1, product_name = ''A'', unit_price = 10,
                  quantity = 3, total_price = 30\<rparr>])) \<and>
   order_items (pending (open_session cart_single)) = [] \<and>
   (\<exists>ord items.
      snd (create_order_from_cart (open_session cart_single) 7 None None) = Inr (Some (ord, items)) \<and>
      tax ord = quantize_money (subtotal ord * (18 / 100)) \<and> discount ord = 0 \<and>
      grand_total ord = subtotal ord + tax ord - discount ord) \<and>
   snd (create_order_from_cart (open_session cart_tie) 7 None None) =
     Inr (Some (\<lparr>o_id = 1, o_user_id = 7, total_items = 5, subtotal = 125 / 100, tax = 23 / 100,
                   discount = 0, grand_total = 148 / 100, o_status = ''PENDING'',
                   shipping_address = None, payment_method = None\<rparr>,
                [\<lparr>oi_order_id = 1, oi_product_id = 3, product_name = ''C'',
                  unit_price = 25 / 100, quantity = 5, total_price = 125 / 100\<rparr>])) \<and>
   order_items (pending (open_session cart_tie)) = [] \<and>
   rounded_half_up (125 / 100 * (18 / 100)) (23 / 100) \<and>
   \<not> rounded_half_up (125 / 100 * (18 / 100)) (22 / 100) \<and>
   \<not> rounded_half_up (125 / 100 * (18 / 100)) (225 / 1000) \<and>
   quantize_money (1005 / 1000) = 101 / 100 \<and>
   quantize_money (1004 / 1000) = 1 \<and>
   quantize_money (- 1005 / 1000) = - (101 / 100)"
proof -
  let ?run = "create_order_from_cart (open_session cart_single) 7 None None"
  have r: "snd ?run =
     Inr (Some (\<lparr>o_id = 1, o_user_id = 7, total_items = 3, subtotal = 30, tax = 540 / 100,
                   discount = 0, grand_total = 3540 / 100, o_status = ''PENDING'',
                   shipping_address = None, payment_method = None\<rparr>,
                [\<lparr>oi_order_id = 1, oi_product_id = 1, product_name = ''A'', unit_price = 10,
                  quantity = 3, total_price = 30\<rparr>]))"
    by code_simp
  have e: "order_items (pending (open_session cart_single)) = []"
    by (simp add: open_session_def cart_single_def shop_def empty_db_def)
  then have fk: "\<forall>i\<in>set (order_items (pending (open_session cart_single))).
      \<exists>ord\<in>set (orders (pending (open_session cart_single))). o_id ord = oi_order_id i"
    by simp
  from r have "?run = (fst ?run, Inr (snd (fst ?run, projr (snd ?run))))"
    by (metis prod.collapse sum.sel(2) snd_conv)
  from order_totals_rounding [OF this fk] r e
  have c1: "\<exists>ord items. snd ?run = Inr (Some (ord, items)) \<and>
      tax ord = quantize_money (subtotal ord * (18 / 100)) \<and> discount ord = 0 \<and>
      grand_total ord = subtotal ord + tax ord - discount ord"
    by auto
  let ?tie = "create_order_from_cart (open_session cart_tie) 7 None None"
  let ?ord = "\<lparr>o_id = 1, o_user_id = 7, total_items = 5, subtotal = 125 / 100, tax = 23 / 100,
                   discount = 0, grand_total = 148 / 100, o_status = ''PENDING'',
                   shipping_address = None, payment_method = None\<rparr>"
  let ?items = "[\<lparr>oi_order_id = 1, oi_product_id = 3, product_name = ''C'',
                  unit_price = 25 / 100, quantity = 5, total_price = 125 / 100\<rparr>]"
  have r2: "snd ?tie = Inr (Some (?ord, ?items))" by code_simp
  have e2: "order_items (pending (open_session cart_tie)) = []"
    by (simp add: open_session_def cart_tie_def empty_db_def)
  then have fk2: "\<forall>i\<in>set (order_items (pending (open_session cart_tie))).
      \<exists>ord\<in>set (orders (pending (open_session cart_tie))). o_id ord = oi_order_id i"
    by simp
  from r2 have run2: "?tie = (fst ?tie, Inr (Some (?ord, ?items)))"
    by (metis prod.collapse)
  note facts = order_totals_rounding [OF run2 fk2]
  from facts have iff: "\<And>v q. rounded_half_up v q \<longleftrightarrow> q = quantize_money v" by blast
  from facts have t1: "rounded_half_up (125 / 100 * (18 / 100)) (23 / 100)" by simp
  have q225: "quantize_money (125 / 100 * (18 / 100)) = 23 / 100" by code_simp
  have t2: "\<not> rounded_half_up (125 / 100 * (18 / 100)) (22 / 100)"
    unfolding iff q225 by simp
  have t3: "\<not> rounded_half_up (125 / 100 * (18 / 100)) (225 / 1000)"
    unfolding iff q225 by simp
  have q1: "quantize_money (1005 / 1000) = 101 / 100" by code_simp
  have q2: "quantize_money (1004 / 1000) = 1" by code_simp
  have q3: "quantize_money (- 1005 / 1000) = - (101 / 100)" by code_simp
  from r e c1 r2 e2 t1 t2 t3 q1 q2 q3 show ?thesis by blast
qed

section \<open>Payment verification\<close>

lemma find_SomeD: "find P xs = Some x \<Longrightarrow> P x \<and> x \<in> set xs"
  by (auto simp: find_Some_iff)

lemma verify_not_found:
  "find (session_of data user_id) (payments d) = None \<Longrightarrow>
     verify_and_capture_payment gw d user_id data =
       (d, Inl (HTTPException 404 ''Payment session not found''))"
  by (simp add: verify_and_capture_payment_def verify_and_capture_payment_in_def
      in_request_def open_session_def)

lemma verify_already_success:
  "find (session_of data user_id) (payments d) = Some pay \<Longrightarrow> p_status pay = ''SUCCESS'' \<Longrightarrow>
     verify_and_capture_payment gw d user_id data = (d, Inr (read_payment pay))"
  by (simp add: verify_and_capture_payment_def verify_and_capture_payment_in_def
      in_request_def open_session_def)

lemma verify_signature_invalid:
  "find (session_of data user_id) (payments d) = Some pay \<Longrightarrow> p_status pay \<noteq> ''SUCCESS'' \<Longrightarrow>
   \<not> accepts gw (v_razorpay_order_id data) (v_razorpay_payment_id data) (v_razorpay_signature data) \<Longrightarrow>
     verify_and_capture_payment gw d user_id data =
       (d\<lparr>payments := replace_payment (pay\<lparr>p_status := ''FAILED''\<rparr>) (payments d)\<rparr>,
        Inl (HTTPException 400 ''Signature verification failed''))"
  by (simp add: verify_and_capture_payment_def verify_and_capture_payment_in_def
      in_request_def open_session_def store_payment_def commit_def)

lemma verify_conflict:
  "find (session_of data user_id) (payments d) = Some pay \<Longrightarrow> p_status pay \<noteq> ''SUCCESS'' \<Longrightarrow>
   accepts gw (v_razorpay_order_id data) (v_razorpay_payment_id data) (v_razorpay_signature data) \<Longrightarrow>
   list_ex (same_capture data) (filter (\<lambda>q. p_id q \<noteq> p_id pay) (payments d)) \<Longrightarrow>
     verify_and_capture_payment gw d user_id data =
       (d, case find (same_capture data) (payments d) of
             None \<Rightarrow> Inl AttributeError
           | Some existing \<Rightarrow> Inr (read_payment existing))"
  apply (frule find_SomeD)
  apply (simp add: verify_and_capture_payment_def verify_and_capture_payment_in_def
      in_request_def open_session_def store_payment_def commit_def rollback_def Let_def
      violates_constraints_def other_payments_def mark_order_paid_def
      split: option.splits)
  done

lemma verify_capture:
  "find (session_of data user_id) (payments d) = Some pay \<Longrightarrow> p_status pay \<noteq> ''SUCCESS'' \<Longrightarrow>
   accepts gw (v_razorpay_order_id data) (v_razorpay_payment_id data) (v_razorpay_signature data) \<Longrightarrow>
   \<not> list_ex (same_capture data) (filter (\<lambda>q. p_id q \<noteq> p_id pay) (payments d)) \<Longrightarrow>
     verify_and_capture_payment gw d user_id data =
       (d\<lparr>payments := replace_payment (captured data pay) (payments d),
          orders := paid_orders (p_order_id pay) (orders d)\<rparr>,
        Inr (read_payment (captured data pay)))"
  apply (frule find_SomeD)
  apply (simp add: verify_and_capture_payment_def verify_and_capture_payment_in_def
      in_request_def open_session_def store_payment_def commit_def rollback_def Let_def
      violates_constraints_def other_payments_def mark_order_paid_def
      split: option.splits)
  done

lemma find_replace_payment:
  "find P ps = Some pay \<Longrightarrow> P pay' \<Longrightarrow> p_id pay' = p_id pay \<Longrightarrow>
     find P (replace_payment pay' ps) = Some pay'"
  by (induction ps) (auto split: if_splits)

lemma replace_payment_idem:
  "p_id pay' = p_id pay \<Longrightarrow>
     replace_payment pay' (replace_payment pay ps) = replace_payment pay' ps"
  by (induction ps) auto

lemma replace_payment_same:
  "replace_payment pay (replace_payment pay ps) = replace_payment pay ps"
  by (rule replace_payment_idem) simp

lemma verify_twice:
  assumes "verify_and_capture_payment gw d user_id data = (d1, r1)"
  shows "verify_and_capture_payment gw d1 user_id data = (d1, r1)"
proof (cases "find (session_of data user_id) (payments d)")
  case None
  with assms verify_not_found [OF None, of gw] show ?thesis by auto
next
  case (Some pay)
  note P = find_SomeD [OF Some]
  show ?thesis
  proof (cases "p_status pay = ''SUCCESS''")
    case True
    with assms verify_already_success [OF Some True, of gw] show ?thesis by auto
  next
    case False
    show ?thesis
    proof (cases "accepts gw (v_razorpay_order_id data) (v_razorpay_payment_id data)
                    (v_razorpay_signature data)")
      case rejected: False
      let ?f = "pay\<lparr>p_status := ''FAILED''\<rparr>"
      from verify_signature_invalid [OF Some False rejected] assms
      have d1: "d1 = d\<lparr>payments := replace_payment ?f (payments d)\<rparr>"
        and r1: "r1 = Inl (HTTPException 400 ''Signature verification failed'')" by auto
      have fnd: "find (session_of data user_id) (payments d1) = Some ?f"
        unfolding d1 using find_replace_payment [OF Some, of ?f] P by simp
      have ff: "?f\<lparr>p_status := ''FAILED''\<rparr> = ?f" by simp
      have "verify_and_capture_payment gw d1 user_id data =
              (d1\<lparr>payments := replace_payment (?f\<lparr>p_status := ''FAILED''\<rparr>) (payments d1)\<rparr>,
               Inl (HTTPException 400 ''Signature verification failed''))"
        by (rule verify_signature_invalid [OF fnd _ rejected]) simp
      then have "verify_and_capture_payment gw d1 user_id data =
              (d1\<lparr>payments := replace_payment ?f (payments d1)\<rparr>,
               Inl (HTTPException 400 ''Signature verification failed''))"
        unfolding ff .
      moreover have "replace_payment ?f (payments d1) = payments d1"
        unfolding d1 by (simp add: replace_payment_same)
      ultimately show ?thesis by (simp add: r1)
    next
      case accepted: True
      show ?thesis
      proof (cases "list_ex (same_capture data)
                      (filter (\<lambda>q. p_id q \<noteq> p_id pay) (payments d))")
        case True
        from verify_conflict [OF Some False accepted True] assms show ?thesis by auto
      next
        case no_conflict: False
        let ?c = "captured data pay"
        from verify_capture [OF Some False accepted no_conflict] assms
        have d1: "d1 = d\<lparr>payments := replace_payment ?c (payments d),
                          orders := paid_orders (p_order_id pay) (orders d)\<rparr>"
          and r1: "r1 = Inr (read_payment ?c)" by auto
        have fnd: "find (session_of data user_id) (payments d1) = Some ?c"
          unfolding d1 using find_replace_payment [OF Some, of ?c] P by simp
        from verify_already_success [OF fnd, of gw] show ?thesis by (simp add: r1)
      qed
    qed
  qed
qed

lemma filter_same_id:
  "distinct (map p_id ps) \<Longrightarrow> e \<in> set ps \<Longrightarrow> filter (\<lambda>q. p_id q = p_id e) ps = [e]"
proof (induction ps)
  case Nil
  then show ?case by simp
next
  case (Cons x xs)
  show ?case
  proof (cases "x = e")
    case True
    with Cons.prems have "p_id e \<notin> p_id ` set xs" by simp
    then have "\<forall>q\<in>set xs. p_id q \<noteq> p_id e" by (metis imageI)
    then have "filter (\<lambda>q. p_id q = p_id e) xs = []" by (auto simp: filter_empty_conv)
    with True show ?thesis by simp
  next
    case False
    with Cons.prems have "e \<in> set xs" "p_id x \<noteq> p_id e" by auto
    with Cons show ?thesis by simp
  qed
qed

lemma unique_capture_row:
  assumes ok: "payment_constraints ps" and e: "e \<in> set ps" "same_capture data e"
  shows "filter (same_capture data) ps = [e]"
proof -
  have "\<forall>q\<in>set ps. same_capture data q \<longleftrightarrow> p_id q = p_id e"
  proof
    fix q assume q: "q \<in> set ps"
    show "same_capture data q \<longleftrightarrow> p_id q = p_id e"
    proof
      assume "same_capture data q"
      with ok e q show "p_id q = p_id e"
        unfolding payment_constraints_def by (metis option.distinct(1))
    next
      assume "p_id q = p_id e"
      with ok e q have "q = e"
        unfolding payment_constraints_def by (metis distinct_map inj_on_def)
      with e show "same_capture data q" by simp
    qed
  qed
  then have "filter (same_capture data) ps = filter (\<lambda>q. p_id q = p_id e) ps"
    by (auto intro: filter_cong)
  also have "\<dots> = [e]" using ok e(1) by (simp add: payment_constraints_def filter_same_id)
  finally show ?thesis .
qed

lemma replace_payment_rows:
  "set (replace_payment c ps) \<subseteq> insert c {q \<in> set ps. p_id q \<noteq> p_id c}"
  by auto

lemma capture_keeps_constraints:
  assumes ok: "payment_constraints ps" and pay: "pay \<in> set ps"
    and key: "p_order_id pay = v_order_id data"
    and free: "\<not> list_ex (same_capture data) (filter (\<lambda>q. p_id q \<noteq> p_id pay) ps)"
  shows "payment_constraints (replace_payment (captured data pay) ps)"
    and "filter (same_capture data) (replace_payment (captured data pay) ps) = [captured data pay]"
proof -
  let ?c = "captured data pay"
  let ?ps = "replace_payment ?c ps"
  have ids: "map p_id ?ps = map p_id ps" by (induction ps) auto
  have rows: "\<forall>q\<in>set ?ps. q = ?c \<or> (q \<in> set ps \<and> p_id q \<noteq> p_id pay)" by auto
  have others: "\<forall>q\<in>set ps. p_id q \<noteq> p_id pay \<longrightarrow> \<not> same_capture data q"
    using free by (auto simp: list_ex_iff)
  show c1: "payment_constraints ?ps"
    unfolding payment_constraints_def
  proof (intro conjI ballI impI)
    show "distinct (map p_id ?ps)" using ok by (simp only: ids payment_constraints_def)
  next
    fix p q
    assume p: "p \<in> set ?ps" and q: "q \<in> set ?ps" and ne: "p_id p \<noteq> p_id q"
      and nn: "razorpay_payment_id p \<noteq> None" and so: "p_order_id p = p_order_id q"
    from rows p have p': "p = ?c \<or> (p \<in> set ps \<and> p_id p \<noteq> p_id pay)" by blast
    from rows q have q': "q = ?c \<or> (q \<in> set ps \<and> p_id q \<noteq> p_id pay)" by blast
    show "razorpay_payment_id p \<noteq> razorpay_payment_id q"
    proof (cases "p = ?c")
      case True
      with ne q' have "q \<in> set ps" "p_id q \<noteq> p_id pay" by auto
      with others have "\<not> same_capture data q" by blast
      with True so key show ?thesis by auto
    next
      case False
      with p' have pp: "p \<in> set ps" "p_id p \<noteq> p_id pay" by auto
      show ?thesis
      proof (cases "q = ?c")
        case True
        from pp others have "\<not> same_capture data p" by blast
        with True so key show ?thesis by auto
      next
        case False
        with q' have "q \<in> set ps" by auto
        with pp ok ne nn so show ?thesis unfolding payment_constraints_def by blast
      qed
    qed
  qed
  have "?c \<in> set ?ps" using pay by (induction ps) auto
  moreover have "same_capture data ?c" using key by simp
  ultimately show "filter (same_capture data) ?ps = [?c]"
    using c1 by (rule unique_capture_row [rotated])
qed

lemma verify_one_row:
  assumes ok: "payment_constraints (payments d)"
    and fnd: "find (session_of data user_id) (payments d) = Some pay"
    and st: "p_status pay \<noteq> ''SUCCESS''"
    and run: "verify_and_capture_payment gw d user_id data = (d1, Inr pr)"
  shows "payment_constraints (payments d1) \<and>
         (\<exists>row. filter (same_capture data) (payments d1) = [row] \<and> read_payment row = pr)"
proof (cases "accepts gw (v_razorpay_order_id data) (v_razorpay_payment_id data)
                (v_razorpay_signature data)")
  case False
  from verify_signature_invalid [OF fnd st False] run show ?thesis by simp
next
  case True
  note P = find_SomeD [OF fnd]
  show ?thesis
  proof (cases "list_ex (same_capture data) (filter (\<lambda>q. p_id q \<noteq> p_id pay) (payments d))")
    case conflict: True
    then obtain w where w: "w \<in> set (payments d)" "same_capture data w"
      by (auto simp: list_ex_iff)
    then obtain e where e: "find (same_capture data) (payments d) = Some e"
      by (cases "find (same_capture data) (payments d)") (auto simp: find_None_iff)
    from verify_conflict [OF fnd st True conflict] run e
    have "d1 = d" "pr = read_payment e" by auto
    moreover from find_SomeD [OF e] ok
    have "filter (same_capture data) (payments d) = [e]"
      by (intro unique_capture_row) auto
    ultimately show ?thesis using ok by simp
  next
    case False
    from verify_capture [OF fnd st True False] run
    have "payments d1 = replace_payment (captured data pay) (payments d)"
      "pr = read_payment (captured data pay)" by auto
    with capture_keeps_constraints [OF ok _ _ False] P show ?thesis by simp
  qed
qed

text \<open>
  Claim C1. When the payment row that the payload selects is already \<open>SUCCESS\<close>,
  \<open>verify_and_capture_payment\<close> returns that row's record and writes nothing. Calling
  it a second time with the same payload, on the store the first call left, returns the
  same result and leaves the store as it is, whatever the first call did; in particular
  the order status is not touched again. On a payments table that satisfies its key and
  uniqueness constraints, a call that verified a not yet successful session and returned
  a record leaves the constraints intact and exactly one row under the payload's
  (\<open>order_id\<close>, \<open>razorpay_payment_id\<close>): the row whose record was returned.
\<close>

theorem verify_and_capture_idempotent:
  "(find (session_of data user_id) (payments d) = Some pay \<and> p_status pay = ''SUCCESS'' \<longrightarrow>
      verify_and_capture_payment gw d user_id data = (d, Inr (read_payment pay))) \<and>
   (verify_and_capture_payment gw d user_id data = (d', r') \<longrightarrow>
      verify_and_capture_payment gw d' user_id data = (d', r')) \<and>
   (payment_constraints (payments d) \<and>
    find (session_of data user_id) (payments d) = Some pay \<and> p_status pay \<noteq> ''SUCCESS'' \<and>
    verify_and_capture_payment gw d user_id data = (d', Inr pr) \<longrightarrow>
      payment_constraints (payments d') \<and>
      (\<exists>row. filter (same_capture data) (payments d') = [row] \<and> read_payment row = pr))"
proof (intro conjI impI)
  assume "find (session_of data user_id) (payments d) = Some pay \<and> p_status pay = ''SUCCESS''"
  then show "verify_and_capture_payment gw d user_id data = (d, Inr (read_payment pay))"
    by (simp add: verify_already_success)
next
  assume "verify_and_capture_payment gw d user_id data = (d', r')"
  then show "verify_and_capture_payment gw d' user_id data = (d', r')"
    by (rule verify_twice)
next
  assume a: "payment_constraints (payments d) \<and>
    find (session_of data user_id) (payments d) = Some pay \<and> p_status pay \<noteq> ''SUCCESS'' \<and>
    verify_and_capture_payment gw d user_id data = (d', Inr pr)"
  then have "payment_constraints (payments d') \<and>
      (\<exists>row. filter (same_capture data) (payments d') = [row] \<and> read_payment row = pr)"
    using verify_one_row [of d data user_id pay gw d' pr] by blast
  then show "payment_constraints (payments d')"
    and "\<exists>row. filter (same_capture data) (payments d') = [row] \<and> read_payment row = pr"
    by blast+
qed

theorem verify_and_capture_idempotent_witness:
  "snd (verify_and_capture_payment test_gateway paying 7 callback) =
     Inr \<lparr>pr_id = 1, pr_order_id = 1, pr_user_id = 7, pr_status = ''SUCCESS'',
          pr_amount = 3540 / 100, pr_currency = ''INR''\<rparr> \<and>
   verify_and_capture_payment test_gateway
       (fst (verify_and_capture_payment test_gateway paying 7 callback)) 7 callback =
     verify_and_capture_payment test_gateway paying 7 callback \<and>
   map o_status (orders (fst (verify_and_capture_payment test_gateway paying 7 callback))) = [''PAID''] \<and>
   payment_constraints (payments paying) \<and>
   find (session_of callback 7) (payments paying) = Some session_A \<and>
   p_status session_A \<noteq> ''SUCCESS'' \<and>
   (\<exists>row. filter (same_capture callback)
            (payments (fst (verify_and_capture_payment test_gateway paying 7 callback))) = [row] \<and>
          p_status row = ''SUCCESS'') \<and>
   find (session_of callback 7)
        (payments (fst (verify_and_capture_payment test_gateway paying 7 callback))) =
     Some (captured callback session_A) \<and>
   p_status (captured callback session_A) = ''SUCCESS''"
proof -
  let ?run = "verify_and_capture_payment test_gateway paying 7 callback"
  let ?pr = "\<lparr>pr_id = 1, pr_order_id = 1, pr_user_id = 7, pr_status = ''SUCCESS'',
          pr_amount = 3540 / 100, pr_currency = ''INR''\<rparr>"
  have r: "snd ?run = Inr ?pr" by code_simp
  then have run: "?run = (fst ?run, Inr ?pr)" by (metis prod.collapse)
  have paid: "map o_status (orders (fst ?run)) = [''PAID'']" by code_simp
  have ok: "payment_constraints (payments paying)" by code_simp
  have fnd: "find (session_of callback 7) (payments paying) = Some session_A" by code_simp
  have st: "p_status session_A \<noteq> ''SUCCESS''" by code_simp
  have fnd2: "find (session_of callback 7) (payments (fst ?run)) = Some (captured callback session_A)"
    by code_simp
  have st2: "p_status (captured callback session_A) = ''SUCCESS''" by simp
  note inst = verify_and_capture_idempotent [where gw = test_gateway and user_id = 7 and data = callback]
  from inst [where d = paying and d' = "fst ?run" and r' = "Inr ?pr"] run
  have again: "verify_and_capture_payment test_gateway (fst ?run) 7 callback = ?run" by simp
  from inst [where d = paying and pay = session_A and d' = "fst ?run" and pr = ?pr] ok fnd st run
  obtain row where row: "filter (same_capture callback) (payments (fst ?run)) = [row]"
    "read_payment row = ?pr" by blast
  then have "p_status row = ''SUCCESS''" by (simp add: read_payment_def)
  with row have one: "\<exists>row. filter (same_capture callback) (payments (fst ?run)) = [row] \<and>
          p_status row = ''SUCCESS''" by blast
  from inst [where d = "fst ?run" and pay = "captured callback session_A"] fnd2 st2
  have "verify_and_capture_payment test_gateway (fst ?run) 7 callback
      = (fst ?run, Inr (read_payment (captured callback session_A)))" by blast
  from r again paid ok fnd st one fnd2 st2 show ?thesis by blast
qed

lemma verify_error_kinds:
  "snd (verify_and_capture_payment gw d user_id data) = Inl e \<Longrightarrow>
     e = HTTPException 404 ''Payment session not found'' \<or>
     e = HTTPException 400 ''Signature verification failed'' \<or>
     e = AttributeError"
  by (auto simp: verify_and_capture_payment_def verify_and_capture_payment_in_def
      in_request_def Let_def split: option.splits if_splits)

text \<open>
  Claim C5. When the write of a verified payment collides with another row that already
  carries the same (\<open>order_id\<close>, \<open>razorpay_payment_id\<close>), the call rolls back (the
  store is unchanged), finds the row that holds the pair and returns that row's record
  as its result. The colliding row is always found, and no call ever answers with a
  409 conflict error.
\<close>

theorem verify_race_absorbed:
  "(find (session_of data user_id) (payments d) = Some pay \<and> p_status pay \<noteq> ''SUCCESS'' \<and>
    accepts gw (v_razorpay_order_id data) (v_razorpay_payment_id data) (v_razorpay_signature data) \<and>
    (\<exists>q\<in>set (payments d). p_id q \<noteq> p_id pay \<and> same_capture data q) \<longrightarrow>
      (\<exists>winner. find (same_capture data) (payments d) = Some winner \<and>
         verify_and_capture_payment gw d user_id data = (d, Inr (read_payment winner)))) \<and>
   (\<forall>msg. snd (verify_and_capture_payment gw d user_id data) \<noteq> Inl (HTTPException 409 msg))"
proof (intro conjI impI allI)
  assume a: "find (session_of data user_id) (payments d) = Some pay \<and> p_status pay \<noteq> ''SUCCESS'' \<and>
    accepts gw (v_razorpay_order_id data) (v_razorpay_payment_id data) (v_razorpay_signature data) \<and>
    (\<exists>q\<in>set (payments d). p_id q \<noteq> p_id pay \<and> same_capture data q)"
  then obtain q where q: "q \<in> set (payments d)" "p_id q \<noteq> p_id pay" "same_capture data q"
    by blast
  then have conflict: "list_ex (same_capture data) (filter (\<lambda>q. p_id q \<noteq> p_id pay) (payments d))"
    by (auto simp: list_ex_iff)
  from q obtain winner where w: "find (same_capture data) (payments d) = Some winner"
    by (cases "find (same_capture data) (payments d)") (auto simp: find_None_iff)
  from a verify_conflict [OF _ _ _ conflict, of user_id gw] w
  have "verify_and_capture_payment gw d user_id data = (d, Inr (read_payment winner))"
    by simp
  with w show "\<exists>winner. find (same_capture data) (payments d) = Some winner \<and>
         verify_and_capture_payment gw d user_id data = (d, Inr (read_payment winner))"
    by blast
next
  fix msg
  show "snd (verify_and_capture_payment gw d user_id data) \<noteq> Inl (HTTPException 409 msg)"
    using verify_error_kinds [of gw d user_id data "HTTPException 409 msg"] by auto
qed

theorem verify_race_absorbed_witness:
  "find (session_of callback 7) (payments raced) = Some session_A \<and>
   p_status session_A \<noteq> ''SUCCESS'' \<and>
   accepts test_gateway (v_razorpay_order_id callback) (v_razorpay_payment_id callback)
     (v_razorpay_signature callback) \<and>
   (\<exists>q\<in>set (payments raced). p_id q \<noteq> p_id session_A \<and> same_capture callback q) \<and>
   verify_and_capture_payment test_gateway raced 7 callback =
     (raced, Inr \<lparr>pr_id = 2, pr_order_id = 1, pr_user_id = 7, pr_status = ''SUCCESS'',
                  pr_amount = 3540 / 100, pr_currency = ''INR''\<rparr>)"
proof -
  have h1: "find (session_of callback 7) (payments raced) = Some session_A" by code_simp
  have h2: "p_status session_A \<noteq> ''SUCCESS''" by code_simp
  have h3: "accepts test_gateway (v_razorpay_order_id callback) (v_razorpay_payment_id callback)
     (v_razorpay_signature callback)" by code_simp
  have h4: "\<exists>q\<in>set (payments raced). p_id q \<noteq> p_id session_A \<and> same_capture callback q"
    by code_simp
  have w: "find (same_capture callback) (payments raced) =
     Some \<lparr>p_id = 2, p_order_id = 1, p_user_id = 7, razorpay_order_id = ''order_B'',
           razorpay_payment_id = Some ''pay_1'', razorpay_signature = Some ''order_B|pay_1'',
           amount = 3540 / 100, currency = ''INR'', p_status = ''SUCCESS''\<rparr>"
    by code_simp
  from verify_race_absorbed [where gw = test_gateway and d = raced and user_id = 7
      and data = callback and pay = session_A] h1 h2 h3 h4
  obtain winner where "find (same_capture callback) (payments raced) = Some winner"
    "verify_and_capture_payment test_gateway raced 7 callback = (raced, Inr (read_payment winner))"
    by blast
  with w have "verify_and_capture_payment test_gateway raced 7 callback =
     (raced, Inr \<lparr>pr_id = 2, pr_order_id = 1, pr_user_id = 7, pr_status = ''SUCCESS'',
                  pr_amount = 3540 / 100, pr_currency = ''INR''\<rparr>)"
    by (simp add: read_payment_def)
  with h1 h2 h3 h4 show ?thesis by blast
qed

text \<open>
  Claim C7, as the code has it. When the selected payment is not \<open>SUCCESS\<close> and the
  gateway rejects the signature, the row's status becomes \<open>FAILED\<close>, nothing else in
  the store changes (the order keeps its status), and the call raises the 400
  "Signature verification failed" error. \<open>FAILED\<close> is not a final state: the only
  status that stops a later call is \<open>SUCCESS\<close>, so a later call on the same row with a
  signature the gateway accepts (and no colliding capture) marks it \<open>SUCCESS\<close> and the
  order \<open>PAID\<close>.
\<close>

theorem verify_signature_failure:
  "(find (session_of data user_id) (payments d) = Some pay \<and> p_status pay \<noteq> ''SUCCESS'' \<and>
    \<not> accepts gw (v_razorpay_order_id data) (v_razorpay_payment_id data)
          (v_razorpay_signature data) \<longrightarrow>
      verify_and_capture_payment gw d user_id data =
        (d\<lparr>payments := replace_payment (pay\<lparr>p_status := ''FAILED''\<rparr>) (payments d)\<rparr>,
         Inl (HTTPException 400 ''Signature verification failed''))) \<and>
   (find (session_of data user_id) (payments d) = Some pay \<and> p_status pay = ''FAILED'' \<and>
    accepts gw (v_razorpay_order_id data) (v_razorpay_payment_id data) (v_razorpay_signature data) \<and>
    \<not> list_ex (same_capture data) (filter (\<lambda>q. p_id q \<noteq> p_id pay) (payments d)) \<longrightarrow>
      verify_and_capture_payment gw d user_id data =
        (d\<lparr>payments := replace_payment (captured data pay) (payments d),
           orders := paid_orders (p_order_id pay) (orders d)\<rparr>,
         Inr (read_payment (captured data pay))))"
proof (intro conjI impI)
  assume "find (session_of data user_id) (payments d) = Some pay \<and> p_status pay \<noteq> ''SUCCESS'' \<and>
    \<not> accepts gw (v_razorpay_order_id data) (v_razorpay_payment_id data)
          (v_razorpay_signature data)"
  then show "verify_and_capture_payment gw d user_id data =
        (d\<lparr>payments := replace_payment (pay\<lparr>p_status := ''FAILED''\<rparr>) (payments d)\<rparr>,
         Inl (HTTPException 400 ''Signature verification failed''))"
    by (simp add: verify_signature_invalid)
next
  assume a: "find (session_of data user_id) (payments d) = Some pay \<and> p_status pay = ''FAILED'' \<and>
    accepts gw (v_razorpay_order_id data) (v_razorpay_payment_id data) (v_razorpay_signature data) \<and>
    \<not> list_ex (same_capture data) (filter (\<lambda>q. p_id q \<noteq> p_id pay) (payments d))"
  then have "p_status pay \<noteq> ''SUCCESS''" by simp
  with a show "verify_and_capture_payment gw d user_id data =
        (d\<lparr>payments := replace_payment (captured data pay) (payments d),
           orders := paid_orders (p_order_id pay) (orders d)\<rparr>,
         Inr (read_payment (captured data pay)))"
    by (intro verify_capture) simp_all
qed

theorem verify_signature_failure_witness:
  "find (session_of tampered 7) (payments paying) = Some session_A \<and>
   p_status session_A \<noteq> ''SUCCESS'' \<and>
   \<not> accepts test_gateway (v_razorpay_order_id tampered) (v_razorpay_payment_id tampered)
        (v_razorpay_signature tampered) \<and>
   snd (verify_and_capture_payment test_gateway paying 7 tampered) =
     Inl (HTTPException 400 ''Signature verification failed'') \<and>
   map p_status (payments (fst (verify_and_capture_payment test_gateway paying 7 tampered))) =
     [''FAILED''] \<and>
   orders (fst (verify_and_capture_payment test_gateway paying 7 tampered)) = orders paying \<and>
   find (session_of callback 7)
        (payments (fst (verify_and_capture_payment test_gateway paying 7 tampered))) =
     Some (session_A\<lparr>p_status := ''FAILED''\<rparr>) \<and>
   accepts test_gateway (v_razorpay_order_id callback) (v_razorpay_payment_id callback)
     (v_razorpay_signature callback) \<and>
   snd (verify_and_capture_payment test_gateway
          (fst (verify_and_capture_payment test_gateway paying 7 tampered)) 7 callback) =
     Inr (read_payment (captured callback (session_A\<lparr>p_status := ''FAILED''\<rparr>)))"
proof -
  let ?d1 = "fst (verify_and_capture_payment test_gateway paying 7 tampered)"
  let ?failed = "session_A\<lparr>p_status := ''FAILED''\<rparr>"
  have h1: "find (session_of tampered 7) (payments paying) = Some session_A" by code_simp
  have h2: "p_status session_A \<noteq> ''SUCCESS''" by code_simp
  have h3: "\<not> accepts test_gateway (v_razorpay_order_id tampered) (v_razorpay_payment_id tampered)
        (v_razorpay_signature tampered)" by code_simp
  from verify_signature_failure [where gw = test_gateway and d = paying and user_id = 7
      and data = tampered and pay = session_A] h1 h2 h3
  have run: "verify_and_capture_payment test_gateway paying 7 tampered =
        (paying\<lparr>payments := replace_payment ?failed (payments paying)\<rparr>,
         Inl (HTTPException 400 ''Signature verification failed''))"
    by blast
  then have c1: "snd (verify_and_capture_payment test_gateway paying 7 tampered) =
     Inl (HTTPException 400 ''Signature verification failed'')" by simp
  from run have c2: "map p_status (payments ?d1) = [''FAILED'']"
    by (simp add: paying_def session_A_def empty_db_def)
  from run have c3: "orders ?d1 = orders paying" by simp
  have g1: "find (session_of callback 7) (payments ?d1) = Some ?failed" by code_simp
  have g2: "p_status ?failed = ''FAILED''" by simp
  have g3: "accepts test_gateway (v_razorpay_order_id callback) (v_razorpay_payment_id callback)
     (v_razorpay_signature callback)" by code_simp
  have g4: "\<not> list_ex (same_capture callback)
      (filter (\<lambda>q. p_id q \<noteq> p_id ?failed) (payments ?d1))" by code_simp
  from verify_signature_failure [where gw = test_gateway and d = ?d1 and user_id = 7
      and data = callback and pay = ?failed] g1 g2 g3 g4
  have "snd (verify_and_capture_payment test_gateway ?d1 7 callback) =
     Inr (read_payment (captured callback ?failed))"
    by simp
  with h1 h2 h3 c1 c2 c3 g1 g3 show ?thesis by blast
qed

text \<open>
  A session failed by a forged signature and then verified with the genuine payload:
  the same payment row goes from \<open>FAILED\<close> to \<open>SUCCESS\<close>.
\<close>

theorem failed_payment_recaptured:
  "map p_status (payments (fst (verify_and_capture_payment test_gateway paying 7 tampered))) =
     [''FAILED''] \<and>
   snd (verify_and_capture_payment test_gateway
          (fst (verify_and_capture_payment test_gateway paying 7 tampered)) 7 callback) =
     Inr \<lparr>pr_id = 1, pr_order_id = 1, pr_user_id = 7, pr_status = ''SUCCESS'',
          pr_amount = 3540 / 100, pr_currency = ''INR''\<rparr> \<and>
   map p_status (payments (fst (verify_and_capture_payment test_gateway
          (fst (verify_and_capture_payment test_gateway paying 7 tampered)) 7 callback))) =
     [''SUCCESS'']"
  by code_simp

section \<open>Inventory invariant\<close>

lemma pending_commit_open [simp]:
  "pending (open_session d) = d" "committed (open_session d) = d"
  by (simp_all add: open_session_def)

lemma finalize_items_balanced:
  "finalize_items items s = (s', r) \<Longrightarrow> stock_balanced (pending s) \<Longrightarrow>
     stock_balanced (pending s') \<and> committed s' = committed s"
proof (induction items arbitrary: s)
  case Nil
  then show ?case by auto
next
  case (Cons item items)
  show ?case
  proof (cases "get_by_product_id s (oi_product_id item)")
    case None
    with Cons.prems show ?thesis by auto
  next
    case (Some row)
    let ?s1 = "set_inventory (oi_product_id item)
               (row\<lparr>reserved_stock := reserved_stock row - quantity item,
                    total_stock := total_stock row - quantity item\<rparr>) s"
    from Some Cons.prems have rec: "finalize_items items ?s1 = (s', r)" by simp
    from Some Cons.prems(2) have "stock_balanced (pending ?s1)"
      by (auto simp: stock_balanced_def get_by_product_id_def)
    from Cons.IH [OF rec this] show ?thesis by simp
  qed
qed

lemma rollback_items_balanced:
  "rollback_items items s = (s', r) \<Longrightarrow> stock_balanced (pending s) \<Longrightarrow>
     stock_balanced (pending s') \<and> committed s' = committed s"
proof (induction items arbitrary: s)
  case Nil
  then show ?case by auto
next
  case (Cons item items)
  show ?case
  proof (cases "get_by_product_id s (oi_product_id item)")
    case None
    with Cons.prems show ?thesis by auto
  next
    case (Some row)
    let ?s1 = "set_inventory (oi_product_id item)
               (row\<lparr>reserved_stock := reserved_stock row - quantity item,
                    available_stock := available_stock row + quantity item\<rparr>) s"
    from Some Cons.prems have rec: "rollback_items items ?s1 = (s', r)" by simp
    from Some Cons.prems(2) have "stock_balanced (pending ?s1)"
      by (auto simp: stock_balanced_def get_by_product_id_def)
    from Cons.IH [OF rec this] show ?thesis by simp
  qed
qed

lemma order_lines_stock:
  "order_lines oid items s sub n = (s', r) \<Longrightarrow> \<forall>ci\<in>set items. 0 < ci_quantity ci \<Longrightarrow>
     (stock_balanced (pending s) \<longrightarrow> stock_balanced (pending s')) \<and>
     (stock_nonneg (pending s) \<longrightarrow> stock_nonneg (pending s'))"
proof (induction items arbitrary: s sub n)
  case Nil
  then show ?case by auto
next
  case (Cons ci rest)
  from Cons.prems(1) show ?case
  proof (cases rule: order_lines_Cons_cases)
    case (reserved prd row)
    have pos: "\<forall>ci\<in>set rest. 0 < ci_quantity ci" "0 < ci_quantity ci"
      using Cons.prems(2) by auto
    have b: "stock_balanced (pending s) \<Longrightarrow> stock_balanced (pending (line_state oid ci prd row s))"
      using reserved(3) by (auto simp: stock_balanced_def get_by_product_id_def)
    have n: "stock_nonneg (pending s) \<Longrightarrow> stock_nonneg (pending (line_state oid ci prd row s))"
      using reserved(3,4) pos(2) by (auto simp: stock_nonneg_def get_by_product_id_def)
    from Cons.IH [OF reserved(5) pos(1)] b n show ?thesis by blast
  qed simp_all
qed

lemma stock_inventory_cong:
  "inventory d' = inventory d \<Longrightarrow> stock_balanced d' = stock_balanced d"
  "inventory d' = inventory d \<Longrightarrow> stock_nonneg d' = stock_nonneg d"
  by (simp_all add: stock_balanced_def stock_nonneg_def)

lemma valid_items_positive: "\<forall>ci\<in>set (valid_items items). 0 < ci_quantity ci"
  by (simp add: valid_items_def)

lemma checkout_stock:
  assumes "create_order_from_cart s u a m = (s', r)" "committed s = pending s"
  shows "(stock_balanced (pending s) \<longrightarrow> stock_balanced (committed s')) \<and>
         (stock_nonneg (pending s) \<longrightarrow> stock_nonneg (committed s'))"
  using assms(1)
proof (cases rule: create_order_from_cart_cases)
  case no_cart
  with assms(2) show ?thesis by simp
next
  case no_items
  with assms(2) show ?thesis by simp
next
  case (line_failed c e)
  from order_lines_frame [OF line_failed(3)] assms(2) show ?thesis by simp
next
  case (created c s2 sub n)
  have inv0: "inventory (pending (add_order (new_order s u a m) s)) = inventory (pending s)"
    by (simp add: add_order_def)
  have inv1: "inventory (committed s') = inventory (pending s2)"
    using created(4) by (simp add: delete_cart_items_def set_order_totals_def)
  from order_lines_stock [OF created(3) valid_items_positive]
  show ?thesis
    unfolding stock_inventory_cong [OF inv0] stock_inventory_cong [OF inv1] .
qed

lemma apply_op_balanced: "stock_balanced d \<Longrightarrow> stock_balanced (apply_op d op)"
proof (cases op)
  case (Create product_id stock)
  assume "stock_balanced d"
  then show ?thesis
    by (auto simp: Create in_request_def create_inventory_for_product_def get_by_product_id_def
        set_inventory_def commit_def stock_balanced_def Let_def split: option.splits)
next
  case (Reserve product_id qty)
  assume "stock_balanced d"
  then show ?thesis
    by (auto simp: Reserve in_request_reserve stock_balanced_def split: option.splits)
next
  case (Finalize order_id)
  assume b: "stock_balanced d"
  obtain s' r where run: "finalize_items
      (filter (\<lambda>i. oi_order_id i = order_id) (order_items d)) (open_session d) = (s', r)"
    by (cases "finalize_items (filter (\<lambda>i. oi_order_id i = order_id) (order_items d))
                 (open_session d)")
  from finalize_items_balanced [OF run] b
  have "stock_balanced (pending s')" "committed s' = d" by simp_all
  with b run show ?thesis
    by (cases r) (simp_all add: Finalize in_request_def finalize_stock_def Let_def)
next
  case (Release order_id)
  assume b: "stock_balanced d"
  obtain s' r where run: "rollback_items
      (filter (\<lambda>i. oi_order_id i = order_id) (order_items d)) (open_session d) = (s', r)"
    by (cases "rollback_items (filter (\<lambda>i. oi_order_id i = order_id) (order_items d))
                 (open_session d)")
  from rollback_items_balanced [OF run] b
  have "stock_balanced (pending s')" "committed s' = d" by simp_all
  with b run show ?thesis
    by (cases r) (simp_all add: Release in_request_def rollback_stock_def Let_def)
next
  case (AdminUpdate product_id new_total)
  assume "stock_balanced d"
  then show ?thesis
    by (auto simp: AdminUpdate in_request_def update_inventory_def get_by_product_id_def
        set_inventory_def commit_def stock_balanced_def Let_def split: option.splits)
next
  case (Checkout user_id shipping pay_method)
  assume b: "stock_balanced d"
  obtain s' r where run:
    "create_order_from_cart (open_session d) user_id shipping pay_method = (s', r)"
    by (cases "create_order_from_cart (open_session d) user_id shipping pay_method")
  from checkout_stock [OF run] b have "stock_balanced (committed s')" by simp
  with run show ?thesis by (simp add: Checkout in_request_def)
qed

lemma apply_op_nonneg:
  "stock_nonneg d \<Longrightarrow> guarded_op op \<Longrightarrow> stock_nonneg (apply_op d op)"
proof (cases op)
  case (Create product_id stock)
  assume "stock_nonneg d" "guarded_op op"
  then show ?thesis
    by (auto simp: Create in_request_def create_inventory_for_product_def get_by_product_id_def
        set_inventory_def commit_def stock_nonneg_def Let_def split: option.splits)
next
  case (Reserve product_id qty)
  assume "stock_nonneg d" "guarded_op op"
  then show ?thesis
    by (auto simp: Reserve in_request_reserve stock_nonneg_def split: option.splits)
next
  case (Checkout user_id shipping pay_method)
  assume b: "stock_nonneg d"
  obtain s' r where run:
    "create_order_from_cart (open_session d) user_id shipping pay_method = (s', r)"
    by (cases "create_order_from_cart (open_session d) user_id shipping pay_method")
  from checkout_stock [OF run] b have "stock_nonneg (committed s')" by simp
  with run show ?thesis by (simp add: Checkout in_request_def)
qed simp_all

lemma run_ops_balanced: "stock_balanced d \<Longrightarrow> stock_balanced (run_ops d ops)"
  unfolding run_ops_def by (induction ops arbitrary: d) (simp_all add: apply_op_balanced)

lemma run_ops_nonneg:
  "stock_nonneg d \<Longrightarrow> list_all guarded_op ops \<Longrightarrow> stock_nonneg (run_ops d ops)"
  unfolding run_ops_def by (induction ops arbitrary: d) (simp_all add: apply_op_nonneg)

text \<open>
  Claim C4, as the code has it. Over every sequence of the inventory operations (create,
  reserve, finalize, release, administrative stock update, checkout), each run as its
  own request, every inventory row keeps \<open>total_stock = available_stock + reserved_stock\<close>.
  Non-negative \<open>available_stock\<close> and \<open>reserved_stock\<close> are kept by checkout, by a
  reservation of a non-negative quantity and by the creation of a row with non-negative
  stock; the other operations check no quantity and can drive a counter below zero.
\<close>

theorem stock_equation_invariant:
  "(stock_balanced d \<longrightarrow> stock_balanced (run_ops d ops)) \<and>
   (stock_nonneg d \<and> list_all guarded_op ops \<longrightarrow> stock_nonneg (run_ops d ops))"
  by (simp add: run_ops_balanced run_ops_nonneg)

theorem stock_equation_invariant_witness:
  "stock_balanced cart_single \<and>
   stock_balanced (run_ops cart_single
     [Checkout 7 None None, AdminUpdate 1 1, Finalize 1, Release 1, Reserve 2 (- 2), Create 3 (- 4)]) \<and>
   stock_nonneg cart_single \<and>
   list_all guarded_op [Checkout 7 None None, Reserve 2 2, Create 3 4] \<and>
   stock_nonneg (run_ops cart_single [Checkout 7 None None, Reserve 2 2, Create 3 4]) \<and>
   inventory (run_ops cart_single [Checkout 7 None None]) 1 =
     Some \<lparr>total_stock = 5, available_stock = 2, reserved_stock = 3\<rparr>"
proof -
  have b: "stock_balanced cart_single"
    by (auto simp: stock_balanced_def cart_single_def shop_def empty_db_def stock5_def
        split: if_splits)
  have n: "stock_nonneg cart_single"
    by (auto simp: stock_nonneg_def cart_single_def shop_def empty_db_def stock5_def
        split: if_splits)
  have g: "list_all guarded_op [Checkout 7 None None, Reserve 2 2, Create 3 4]" by simp
  have e: "inventory (run_ops cart_single [Checkout 7 None None]) 1 =
     Some \<lparr>total_stock = 5, available_stock = 2, reserved_stock = 3\<rparr>"
    by code_simp
  from b stock_equation_invariant [where d = cart_single and ops =
     "[Checkout 7 None None, AdminUpdate 1 1, Finalize 1, Release 1, Reserve 2 (- 2), Create 3 (- 4)]"]
  have c1: "stock_balanced (run_ops cart_single
     [Checkout 7 None None, AdminUpdate 1 1, Finalize 1, Release 1, Reserve 2 (- 2), Create 3 (- 4)])"
    by blast
  from n g stock_equation_invariant [where d = cart_single and ops =
     "[Checkout 7 None None, Reserve 2 2, Create 3 4]"]
  have c2: "stock_nonneg (run_ops cart_single [Checkout 7 None None, Reserve 2 2, Create 3 4])"
    by blast
  from b n g e c1 c2 show ?thesis by blast
qed

text \<open>
  A checkout reserves 3 of 5 units; the administrator then sets the total stock to 1.
  The row stays balanced, but its available stock becomes \<open>-2\<close>.
\<close>

theorem admin_update_below_reserved:
  "stock_balanced cart_single \<and> stock_nonneg cart_single \<and>
   inventory (run_ops cart_single [Checkout 7 None None, AdminUpdate 1 1]) 1 =
     Some \<lparr>total_stock = 1, available_stock = - 2, reserved_stock = 3\<rparr> \<and>
   \<not> stock_nonneg (run_ops cart_single [Checkout 7 None None, AdminUpdate 1 1])"
proof -
  have b: "stock_balanced cart_single"
    by (auto simp: stock_balanced_def cart_single_def shop_def empty_db_def stock5_def
        split: if_splits)
  have n: "stock_nonneg cart_single"
    by (auto simp: stock_nonneg_def cart_single_def shop_def empty_db_def stock5_def
        split: if_splits)
  have e: "inventory (run_ops cart_single [Checkout 7 None None, AdminUpdate 1 1]) 1 =
     Some \<lparr>total_stock = 1, available_stock = - 2, reserved_stock = 3\<rparr>"
    by code_simp
  then have "\<not> stock_nonneg (run_ops cart_single [Checkout 7 None None, AdminUpdate 1 1])"
    unfolding stock_nonneg_def by fastforce
  with b n e show ?thesis by blast
qed

section \<open>Frame of the payment operations and the status update\<close>

lemma create_payment_session_inventory:
  "inventory (fst (create_payment_session gw d user_id order_id)) = inventory d"
  by (simp add: create_payment_session_def create_payment_session_in_def in_request_def
      add_payment_def commit_def Let_def split: option.splits)

lemma verify_inventory:
  "inventory (fst (verify_and_capture_payment gw d user_id data)) = inventory d"
  by (simp add: verify_and_capture_payment_def verify_and_capture_payment_in_def in_request_def
      store_payment_def mark_order_paid_def commit_def rollback_def Let_def split: option.splits)

lemma update_status_frame:
  "\<exists>os. pending (fst (update_status s order_id new_status)) = (pending s)\<lparr>orders := os\<rparr> \<and>
        map (\<lambda>x. x\<lparr>o_status := []\<rparr>) os = map (\<lambda>x. x\<lparr>o_status := []\<rparr>) (orders (pending s))"
proof (cases "new_status \<in> set ALLOWED_STATUSES \<and>
              find (\<lambda>ord. o_id ord = order_id) (orders (pending s)) \<noteq> None")
  case True
  then obtain ord where "find (\<lambda>ord. o_id ord = order_id) (orders (pending s)) = Some ord"
    by auto
  with True show ?thesis
    by (intro exI [of _ "map (\<lambda>x. if o_id x = o_id ord then x\<lparr>o_status := new_status\<rparr> else x)
                             (orders (pending s))"])
       (auto simp: update_status_def commit_def)
next
  case False
  then show ?thesis
    by (intro exI [of _ "orders (pending s)"]) (auto simp: update_status_def split: option.splits)
qed

text \<open>
  Claim C10. Neither \<open>create_payment_session\<close> nor \<open>verify_and_capture_payment\<close>
  changes the inventory table, and \<open>update_status\<close> changes nothing but the status
  field of orders: the session's pending store differs from the one before at most in
  the \<open>orders\<close> table, whose rows agree once their status is blanked, and the
  committed inventory after the request is the inventory before it.
\<close>

theorem payments_and_status_leave_inventory:
  "inventory (fst (create_payment_session gw d user_id order_id)) = inventory d \<and>
   inventory (fst (verify_and_capture_payment gw d user_id data)) = inventory d \<and>
   (\<exists>os. pending (fst (update_status s oid new_status)) = (pending s)\<lparr>orders := os\<rparr> \<and>
         map (\<lambda>x. x\<lparr>o_status := []\<rparr>) os = map (\<lambda>x. x\<lparr>o_status := []\<rparr>) (orders (pending s))) \<and>
   inventory (fst (in_request (\<lambda>s. update_status s oid new_status) d)) = inventory d"
proof (intro conjI)
  show "inventory (fst (create_payment_session gw d user_id order_id)) = inventory d"
    by (rule create_payment_session_inventory)
  show "inventory (fst (verify_and_capture_payment gw d user_id data)) = inventory d"
    by (rule verify_inventory)
  show "\<exists>os. pending (fst (update_status s oid new_status)) = (pending s)\<lparr>orders := os\<rparr> \<and>
         map (\<lambda>x. x\<lparr>o_status := []\<rparr>) os = map (\<lambda>x. x\<lparr>o_status := []\<rparr>) (orders (pending s))"
    by (rule update_status_frame)
  show "inventory (fst (in_request (\<lambda>s. update_status s oid new_status) d)) = inventory d"
    by (simp add: in_request_def update_status_def commit_def split: option.splits)
qed

section \<open>Payment session creation\<close>

text \<open>
  The two branches of \<open>create_payment_session\<close> past the ownership and "already paid"
  checks: an existing pending session is handed back without any write or gateway call;
  without one, a gateway order is created and the insert of the new row is attempted.
\<close>

lemma create_payment_session_reuse:
  "find (\<lambda>ord. o_id ord = order_id \<and> o_user_id ord = user_id) (orders d) = Some ord \<Longrightarrow>
   o_status ord \<noteq> ''PAID'' \<Longrightarrow>
   find (\<lambda>p. p_order_id p = o_id ord \<and> p_user_id p = user_id \<and> p_status p = ''PENDING'')
     (payments d) = Some existing \<Longrightarrow>
   create_payment_session gw d user_id order_id =
     (d, gw, Inr \<lparr>r_razorpay_order_id = razorpay_order_id existing,
                 r_amount = int_of_decimal (grand_total ord * 100),
                 r_currency = ''INR'', r_key_id = key_id gw, r_order_id = o_id ord\<rparr>)"
  by (simp add: create_payment_session_def create_payment_session_in_def in_request_def)

lemma create_payment_session_new:
  "find (\<lambda>ord. o_id ord = order_id \<and> o_user_id ord = user_id) (orders d) = Some ord \<Longrightarrow>
   o_status ord \<noteq> ''PAID'' \<Longrightarrow>
   find (\<lambda>p. p_order_id p = o_id ord \<and> p_user_id p = user_id \<and> p_status p = ''PENDING'')
     (payments d) = None \<Longrightarrow>
   grand_total ord \<noteq> 0 \<Longrightarrow>
   create_payment_session gw d user_id order_id =
     (d, gw\<lparr>created := created gw @ [(int_of_decimal (grand_total ord * 100), o_id ord)]\<rparr>,
      Inl IntegrityError)"
  by (simp add: create_payment_session_def create_payment_session_in_def in_request_def
      violates_constraints_def add_payment_def Let_def)

text \<open>
  Claim C6 at an order without a payment session. The new \<open>Payment\<close> row is built
  without \<open>razorpay_payment_id\<close> and \<open>razorpay_signature\<close>, both declared
  \<open>nullable=False\<close>: the commit raises, no row is stored, and the gateway order just
  created stays behind. A second call finds no pending session and does the same, so
  the two calls create two gateway orders and return no session.
\<close>

theorem create_session_not_persisted:
  "snd (snd (create_payment_session test_gateway unpaid 7 1)) = Inl IntegrityError \<and>
   payments (fst (create_payment_session test_gateway unpaid 7 1)) = [] \<and>
   created (fst (snd (create_payment_session test_gateway unpaid 7 1))) = [(3540, 1)] \<and>
   snd (snd (create_payment_session
               (fst (snd (create_payment_session test_gateway unpaid 7 1)))
               (fst (create_payment_session test_gateway unpaid 7 1)) 7 1)) = Inl IntegrityError \<and>
   created (fst (snd (create_payment_session
               (fst (snd (create_payment_session test_gateway unpaid 7 1)))
               (fst (create_payment_session test_gateway unpaid 7 1)) 7 1))) =
     [(3540, 1), (3540, 1)]"
  by code_simp

end
